theory Spec2Isabelle
  imports Main "HOL-Library.Sublist"
begin

section \<open>Python values shared by the three scripts\<close>

text \<open>
  The repository holds three independent command-line scripts:
  \<^verbatim>\<open>file_scraper.py\<close>, \<^verbatim>\<open>doc2docx.py\<close> and \<^verbatim>\<open>docx2md.py\<close>.
  Each Python function is embedded as a HOL function of the same name. A function that
  can raise returns an \<open>outcome\<close>; a function that touches the file system, the
  network, the console or the log takes a \<open>world\<close> and returns the new one.
\<close>

datatype exn =
    KeyboardInterrupt
  | RequestException
  | ValueError
  | UnboundLocalError
  | OSError
  | AttributeError
  | FileNotFoundError
  | KeyError
  | UnicodeDecodeError
  | ArgumentTypeError string

datatype 'a outcome = Return 'a | Raise exn

text \<open>
  \<^verbatim>\<open>except Exception\<close> catches every exception of the model but
  \<^verbatim>\<open>KeyboardInterrupt\<close>, which derives from \<^verbatim>\<open>BaseException\<close> only.
\<close>

definition is_Exception :: "exn \<Rightarrow> bool" where
  "is_Exception e = (e \<noteq> KeyboardInterrupt)"

subsection \<open>String methods\<close>

fun startswith :: "string \<Rightarrow> string \<Rightarrow> bool" where
  "startswith s [] = True"
| "startswith [] (p # ps) = False"
| "startswith (c # cs) (p # ps) = (c = p \<and> startswith cs ps)"

definition endswith :: "string \<Rightarrow> string \<Rightarrow> bool" where
  "endswith s e = startswith (rev s) (rev e)"

definition quoted :: "string \<Rightarrow> string" where
  "quoted s = CHR 0x27 # s @ [CHR 0x27]"

section \<open>file\_scraper.py: the argument validators\<close>

definition valid_url :: "string \<Rightarrow> string outcome" where
  "valid_url string =
     (if \<not> startswith string ''http://'' \<and> \<not> startswith string ''https://''
      then Raise (ArgumentTypeError
             (''Invalid URL '' @ quoted string @ ''. URL should start with ''
                @ quoted ''http://'' @ '' or '' @ quoted ''https://'' @ ''.''))
      else Return string)"

definition valid_extension :: "string \<Rightarrow> string outcome" where
  "valid_extension string =
     (if \<not> startswith string ''.''
      then Raise (ArgumentTypeError
             (''Invalid extension '' @ quoted string @ ''. Extension should start with a dot.''))
      else Return string)"

section \<open>The world the scripts act on\<close>

text \<open>
  A path names a regular file with its bytes, or a directory. \<^verbatim>\<open>os.path.exists\<close>
  is true of both; \<^verbatim>\<open>os.path.getsize\<close> is the length of a file and, for a
  directory, the size the platform reports (\<open>dir_size\<close>, the same for every directory);
  \<^verbatim>\<open>os.remove\<close> deletes a file and raises \<^verbatim>\<open>OSError\<close> on a directory;
  \<^verbatim>\<open>open(p, "wb")\<close> creates or truncates a file and raises \<^verbatim>\<open>OSError\<close>
  on a directory. Permissions, missing parent directories and full disks are not modelled.
  Everything a script prints, logs, requests or spawns is appended to \<open>trace\<close>.
\<close>

datatype node = File string | Dir

datatype level = DEBUG | INFO | ERROR

text \<open>
  The messages of the two converters, one constructor per format string of the source,
  with the arguments the format string is given.
\<close>

datatype message =
    Docx_Overwriting string
  | Docx_Skipping string
  | Docx_Output string
  | Docx_Error string
  | Docx_Failed string string
  | Docx_Converted string string
  | Md_Skipping string string
  | Md_Converting string string
  | Md_Failed_exn string string exn
  | Md_Failed string string string
  | Md_Pandoc_output string string
  | Md_Finished string string

datatype event =
    Print_Files "string list"
  | Print_Overwriting string
  | Print_Skipping string
  | Print_Downloading string nat int
  | Print_Downloaded string
  | Print_Error string
  | Print_Deleted string
  | Print_Interrupted string
  | Print_Results nat nat nat nat
  | Http_Get string int
  | Spawn "string list"
  | Log level message

record world =
  fs :: "string \<rightharpoonup> node"
  dir_size :: nat
  requests :: nat
  trace :: "event list"

definition emit :: "event \<Rightarrow> world \<Rightarrow> world" where
  "emit e w = w\<lparr>trace := trace w @ [e]\<rparr>"

definition os_path_exists :: "world \<Rightarrow> string \<Rightarrow> bool" where
  "os_path_exists w p = (case fs w p of None \<Rightarrow> False | Some n \<Rightarrow> True)"

definition os_path_getsize :: "world \<Rightarrow> node \<Rightarrow> nat" where
  "os_path_getsize w n = (case n of File b \<Rightarrow> length b | Dir \<Rightarrow> dir_size w)"

definition os_makedirs :: "string \<Rightarrow> world \<Rightarrow> world" where
  "os_makedirs p w = w\<lparr>fs := (fs w)(p \<mapsto> Dir)\<rparr>"

definition os_remove_file :: "string \<Rightarrow> world \<Rightarrow> world" where
  "os_remove_file p w = w\<lparr>fs := (fs w)(p := None)\<rparr>"

definition open_wb :: "string \<Rightarrow> world \<Rightarrow> world" where
  "open_wb p w = w\<lparr>fs := (fs w)(p \<mapsto> File [])\<rparr>"

definition written :: "world \<Rightarrow> string \<Rightarrow> string" where
  "written w p = (case fs w p of Some (File b) \<Rightarrow> b | _ \<Rightarrow> [])"

definition f_write :: "string \<Rightarrow> string \<Rightarrow> world \<Rightarrow> world" where
  "f_write p data w = w\<lparr>fs := (fs w)(p \<mapsto> File (written w p @ data))\<rparr>"

subsection \<open>os.path on POSIX\<close>

definition os_path_basename :: "string \<Rightarrow> string" where
  "os_path_basename p = rev (takeWhile (\<lambda>c. c \<noteq> CHR ''/'') (rev p))"

definition os_path_join :: "string \<Rightarrow> string \<Rightarrow> string" where
  "os_path_join a b =
     (if startswith b ''/'' then b
      else if a = [] \<or> endswith a ''/'' then a @ b
      else a @ ''/'' @ b)"

text \<open>
  \<^verbatim>\<open>os.path.splitext(p)[0]\<close> for a \<open>p\<close> without a slash: the text before the
  last dot, unless only dots stand before it; then \<open>p\<close> itself.
\<close>

definition splitext_root :: "string \<Rightarrow> string" where
  "splitext_root p =
     (let after = takeWhile (\<lambda>c. c \<noteq> CHR ''.'') (rev p);
          before = rev (drop (Suc (length after)) (rev p))
      in if length after < length p \<and> list_ex (\<lambda>c. c \<noteq> CHR ''.'') before
         then before else p)"

section \<open>file\_scraper.py: download\_file\<close>

text \<open>
  What the network answers to one \<^verbatim>\<open>requests.get(url, stream=True)\<close>: the call
  raises, or it returns a response. The response carries the result of
  \<^verbatim>\<open>int(response.headers.get("content-length", 0))\<close> (no header, a header that
  parses, or a header on which \<^verbatim>\<open>int\<close> raises \<^verbatim>\<open>ValueError\<close>), the chunks
  \<^verbatim>\<open>iter_content\<close> yields, and how the iteration ends: exhausted, or with an
  exception raised in place of the next chunk. The network is asked by the number of
  requests made so far and the URL, so that two requests for one URL may differ.
\<close>

datatype content_length = Absent | Parsed int | Unparsable

datatype ending = Complete | Broken exn

datatype get_outcome = Get_raises exn | Response content_length "string list" ending

type_synonym network = "nat \<Rightarrow> string \<Rightarrow> get_outcome"

text \<open>
  The \<^verbatim>\<open>finally\<close> block. \<open>total_size\<close> is \<open>None\<close> while the local variable is
  unbound (the request or \<^verbatim>\<open>int\<close> raised before the assignment); reading it then
  raises \<^verbatim>\<open>UnboundLocalError\<close>, after \<^verbatim>\<open>os.path.exists\<close> and
  \<^verbatim>\<open>os.path.getsize\<close> have been evaluated. An exception of the block replaces
  the pending return value or exception; otherwise the pending one continues.
\<close>

definition finally_block ::
  "string \<Rightarrow> int option \<Rightarrow> string outcome \<Rightarrow> world \<Rightarrow> string outcome \<times> world" where
  "finally_block filename total_size pending w =
     (case fs w filename of
        None \<Rightarrow> (pending, w)
      | Some n \<Rightarrow>
          (case total_size of
             None \<Rightarrow> (Raise UnboundLocalError, w)
           | Some size_expected \<Rightarrow>
               if int (os_path_getsize w n) \<noteq> size_expected
               then (case n of
                       Dir \<Rightarrow> (Raise OSError, w)
                     | File b \<Rightarrow> (pending, emit (Print_Deleted filename) (os_remove_file filename w)))
               else (pending, w)))"

text \<open>The body of the \<^verbatim>\<open>for data in response.iter_content(1024)\<close> loop.\<close>

fun write_chunks :: "string \<Rightarrow> bool \<Rightarrow> int \<Rightarrow> string list \<Rightarrow> world \<Rightarrow> world" where
  "write_chunks filename verbose total_size [] w = w"
| "write_chunks filename verbose total_size (data # rest) w =
     (let w1 = f_write filename data w;
          tell = length (written w1 filename);
          w2 = (if verbose
                then emit (Print_Downloading filename tell (total_size - int tell)) w1
                else w1)
      in write_chunks filename verbose total_size rest w2)"

text \<open>
  The \<^verbatim>\<open>except requests.exceptions.RequestException\<close> clause: it handles that
  exception and lets any other pass to the \<^verbatim>\<open>finally\<close> block.
\<close>

definition except_clause ::
  "string \<Rightarrow> int option \<Rightarrow> exn \<Rightarrow> world \<Rightarrow> string outcome \<times> world" where
  "except_clause filename total_size e w =
     (if e = RequestException
      then finally_block filename total_size (Return ''error'') (emit (Print_Error filename) w)
      else finally_block filename total_size (Raise e) w)"

definition download_file ::
  "network \<Rightarrow> string \<Rightarrow> string \<Rightarrow> bool \<Rightarrow> bool \<Rightarrow> int \<Rightarrow> world \<Rightarrow> string outcome \<times> world" where
  "download_file net url filename verbose overwrite timeout w =
     (if os_path_exists w filename \<and> \<not> overwrite
      then (Return ''skipped'', emit (Print_Skipping filename) w)
      else
        let w0 = (if os_path_exists w filename then emit (Print_Overwriting filename) w else w);
            w1 = emit (Http_Get url timeout) (w0\<lparr>requests := Suc (requests w0)\<rparr>)
        in case net (requests w0) url of
             Get_raises e \<Rightarrow> except_clause filename None e w1
           | Response Unparsable chunks ending \<Rightarrow> except_clause filename None ValueError w1
           | Response header chunks ending \<Rightarrow>
               (let total_size = (case header of Parsed n \<Rightarrow> n | _ \<Rightarrow> 0) in
                case fs w1 filename of
                  Some Dir \<Rightarrow> except_clause filename (Some total_size) OSError w1
                | _ \<Rightarrow>
                    (let w2 = write_chunks filename verbose total_size chunks (open_wb filename w1)
                     in case ending of
                          Broken e \<Rightarrow> except_clause filename (Some total_size) e w2
                        | Complete \<Rightarrow>
                            finally_block filename (Some total_size) (Return ''success'')
                              (if \<not> verbose then emit (Print_Downloaded filename) w2 else w2))))"

section \<open>file\_scraper.py: download\_files\<close>

text \<open>
  The page request of \<open>download_files\<close> raises, or it returns a page of which
  \<^verbatim>\<open>soup.find_all("a")\<close> lists the anchors in document order; the model keeps of
  an anchor what \<^verbatim>\<open>link.get("href")\<close> returns: the attribute, or \<open>None\<close> for an
  anchor without one. \<^verbatim>\<open>urllib.parse.urljoin\<close> is library code and a parameter;
  it returns the resolved URL or raises (\<^verbatim>\<open>ValueError\<close> on a malformed reference).
\<close>

datatype page_outcome = Page_raises exn | Page "string option list"

text \<open>
  \<^verbatim>\<open>any(link.get("href").endswith(extension) for extension in extensions)\<close>: the
  generator calls \<^verbatim>\<open>endswith\<close> on the attribute once per extension until one
  matches, so an anchor without \<^verbatim>\<open>href\<close> raises unless there is no extension.
\<close>

fun any_endswith :: "string option \<Rightarrow> string list \<Rightarrow> bool outcome" where
  "any_endswith href [] = Return False"
| "any_endswith None (extension # rest) = Raise AttributeError"
| "any_endswith (Some h) (extension # rest) =
     (if endswith h extension then Return True else any_endswith (Some h) rest)"

text \<open>
  The list comprehension. The anchors are taken in document order; for each the
  condition is evaluated and then, if it holds, \<^verbatim>\<open>urljoin(url, link.get("href"))\<close>,
  before the next anchor is looked at: the first exception ends the comprehension. The
  condition never holds of an anchor without \<^verbatim>\<open>href\<close>, so \<open>resolve_kept\<close> is
  not reached with \<open>None\<close> and \<open>keep\<close> true.
\<close>

definition resolve_kept ::
  "(string \<Rightarrow> string \<Rightarrow> string outcome) \<Rightarrow> string \<Rightarrow> string option \<Rightarrow> bool
     \<Rightarrow> string list outcome" where
  "resolve_kept urljoin url link keep =
     (case link of
        None \<Rightarrow> Return []
      | Some h \<Rightarrow>
          if keep
          then (case urljoin url h of Raise e \<Rightarrow> Raise e | Return resolved \<Rightarrow> Return [resolved])
          else Return [])"

fun files_to_download ::
  "(string \<Rightarrow> string \<Rightarrow> string outcome) \<Rightarrow> string \<Rightarrow> string list \<Rightarrow> string option list
     \<Rightarrow> string list outcome" where
  "files_to_download urljoin url extensions [] = Return []"
| "files_to_download urljoin url extensions (link # links) =
     (case any_endswith link extensions of
        Raise e \<Rightarrow> Raise e
      | Return keep \<Rightarrow>
          (case resolve_kept urljoin url link keep of
             Raise e \<Rightarrow> Raise e
           | Return kept \<Rightarrow>
               (case files_to_download urljoin url extensions links of
                  Raise e \<Rightarrow> Raise e
                | Return files \<Rightarrow> Return (kept @ files))))"

text \<open>The dictionary \<^verbatim>\<open>download_results\<close> and \<^verbatim>\<open>download_results[result] += 1\<close>.\<close>

type_synonym results = "string \<rightharpoonup> nat"

definition initial_results :: results where
  "initial_results =
     [''success'' \<mapsto> 0, ''overwrite'' \<mapsto> 0, ''skipped'' \<mapsto> 0, ''error'' \<mapsto> 0]"

definition count_up :: "results \<Rightarrow> string \<Rightarrow> results outcome" where
  "count_up d k = (case d k of None \<Rightarrow> Raise KeyError | Some n \<Rightarrow> Return (d(k \<mapsto> Suc n)))"

text \<open>The \<^verbatim>\<open>except KeyboardInterrupt\<close> clause of the loop, up to its \<^verbatim>\<open>break\<close>.\<close>

definition interrupt_handler :: "string \<Rightarrow> results \<Rightarrow> world \<Rightarrow> results outcome \<times> world" where
  "interrupt_handler filename d w =
     (let w1 = emit (Print_Interrupted filename) w
      in case fs w1 filename of
           None \<Rightarrow> (count_up d ''error'', w1)
         | Some Dir \<Rightarrow> (Raise OSError, w1)
         | Some (File b) \<Rightarrow>
             (count_up d ''error'', emit (Print_Deleted filename) (os_remove_file filename w1)))"

fun download_loop ::
  "network \<Rightarrow> string \<Rightarrow> bool \<Rightarrow> bool \<Rightarrow> int \<Rightarrow> string list \<Rightarrow> results \<Rightarrow> world
     \<Rightarrow> results outcome \<times> world" where
  "download_loop net project_folder verbose overwrite timeout [] d w = (Return d, w)"
| "download_loop net project_folder verbose overwrite timeout (file # rest) d w =
     (let filename = os_path_join project_folder (os_path_basename file)
      in case download_file net file filename verbose overwrite timeout w of
           (Return result, w1) \<Rightarrow>
             (case count_up d result of
                Raise e \<Rightarrow> (Raise e, w1)
              | Return d1 \<Rightarrow> download_loop net project_folder verbose overwrite timeout rest d1 w1)
         | (Raise e, w1) \<Rightarrow>
             if e = KeyboardInterrupt then interrupt_handler filename d w1 else (Raise e, w1))"

definition print_results :: "results \<Rightarrow> world \<Rightarrow> unit outcome \<times> world" where
  "print_results d w =
     (case d ''success'' of None \<Rightarrow> (Raise KeyError, w) | Some s \<Rightarrow>
     (case d ''overwrite'' of None \<Rightarrow> (Raise KeyError, w) | Some ov \<Rightarrow>
     (case d ''skipped'' of None \<Rightarrow> (Raise KeyError, w) | Some sk \<Rightarrow>
     (case d ''error'' of None \<Rightarrow> (Raise KeyError, w) | Some er \<Rightarrow>
        (Return (), emit (Print_Results s ov sk er) w)))))"

definition download_files ::
  "page_outcome \<Rightarrow> network \<Rightarrow> (string \<Rightarrow> string \<Rightarrow> string outcome) \<Rightarrow> string \<Rightarrow> string list \<Rightarrow> string
     \<Rightarrow> bool \<Rightarrow> bool \<Rightarrow> bool \<Rightarrow> int \<Rightarrow> world \<Rightarrow> unit outcome \<times> world" where
  "download_files page net urljoin url extensions project_folder create_folder verbose
       overwrite timeout w =
     (if \<not> os_path_exists w project_folder \<and> \<not> create_folder
      then (Raise FileNotFoundError, w)
      else
        let w0 = (if \<not> os_path_exists w project_folder then os_makedirs project_folder w else w);
            w1 = emit (Http_Get url timeout) (w0\<lparr>requests := Suc (requests w0)\<rparr>)
        in case page of
             Page_raises e \<Rightarrow> (Raise e, w1)
           | Page links \<Rightarrow>
               (case files_to_download urljoin url extensions links of
                  Raise e \<Rightarrow> (Raise e, w1)
                | Return files \<Rightarrow>
                    (let w2 = (if verbose
                               then emit (Print_Files (map os_path_basename files)) w1
                               else w1)
                     in case download_loop net project_folder verbose overwrite timeout files
                               initial_results w2 of
                          (Raise e, w3) \<Rightarrow> (Raise e, w3)
                        | (Return d, w3) \<Rightarrow> print_results d w3)))"

text \<open>The tally a run printed last, read off the trace.\<close>

definition printed_results :: "world \<Rightarrow> (nat \<times> nat \<times> nat \<times> nat) option" where
  "printed_results w =
     (case rev (trace w) of
        Print_Results s ov sk er # earlier \<Rightarrow> Some (s, ov, sk, er)
      | _ \<Rightarrow> None)"

section \<open>doc2docx.py and docx2md.py\<close>

text \<open>
  The external program is a parameter: given the argument list of
  \<^verbatim>\<open>subprocess.Popen\<close> and the files it finds, either the spawn raises, or the
  process runs to its end and \<^verbatim>\<open>communicate\<close> returns its standard output and
  standard error, with the exit code and the files it leaves. \<^verbatim>\<open>bytes.decode("utf-8")\<close>
  is library code and a parameter too: \<open>None\<close> where it raises
  \<^verbatim>\<open>UnicodeDecodeError\<close>.
\<close>

datatype proc_outcome = Popen_raises exn | Exited string string int "string \<rightharpoonup> node"

type_synonym program = "string list \<Rightarrow> (string \<rightharpoonup> node) \<Rightarrow> proc_outcome"

type_synonym decoder = "string \<Rightarrow> string option"

text \<open>\<^verbatim>\<open>bytes.strip()\<close> removes leading and trailing ASCII whitespace.\<close>

definition is_whitespace :: "char \<Rightarrow> bool" where
  "is_whitespace c =
     (c = CHR 0x20 \<or> c = CHR 0x09 \<or> c = CHR 0x0A \<or> c = CHR 0x0D \<or> c = CHR 0x0B \<or> c = CHR 0x0C)"

definition strip :: "string \<Rightarrow> string" where
  "strip s = rev (dropWhile is_whitespace (rev (dropWhile is_whitespace s)))"

definition docx_output_file :: "string \<Rightarrow> string \<Rightarrow> string" where
  "docx_output_file output_path doc_file =
     os_path_join output_path (splitext_root (os_path_basename doc_file) @ ''.docx'')"

definition libreoffice_command :: "string \<Rightarrow> string \<Rightarrow> string \<Rightarrow> string list" where
  "libreoffice_command libreoffice_path doc_file output_path =
     [libreoffice_path, ''--headless'', ''--convert-to'', ''docx'', doc_file, ''--outdir'',
      output_path]"

text \<open>
  \<^verbatim>\<open>if stdout: logging.info("Output: %s", stdout.decode("utf-8"))\<close>
\<close>

definition log_stdout :: "decoder \<Rightarrow> string \<Rightarrow> world \<Rightarrow> unit outcome \<times> world" where
  "log_stdout decode stdout w =
     (if stdout \<noteq> []
      then (case decode stdout of
              None \<Rightarrow> (Raise UnicodeDecodeError, w)
            | Some text \<Rightarrow> (Return (), emit (Log INFO (Docx_Output text)) w))
      else (Return (), w))"

text \<open>The statements of \<open>convert_to_docx\<close> after \<^verbatim>\<open>process.communicate()\<close>.\<close>

definition report_conversion ::
  "decoder \<Rightarrow> string \<Rightarrow> string \<Rightarrow> string \<Rightarrow> string \<Rightarrow> world \<Rightarrow> unit outcome \<times> world" where
  "report_conversion decode doc_file output_file stdout stderr w =
     (case log_stdout decode stdout w of
        (Raise e, w1) \<Rightarrow> (Raise e, w1)
      | (Return u, w1) \<Rightarrow>
          if stderr \<noteq> []
          then (case decode stderr of
                  None \<Rightarrow> (Raise UnicodeDecodeError, w1)
                | Some text \<Rightarrow>
                    (let w2 = emit (Log ERROR (Docx_Error text)) w1
                     in if strip stderr \<noteq> []
                        then (Return (), emit (Log ERROR (Docx_Failed doc_file output_file)) w2)
                        else (Return (), emit (Log INFO (Docx_Converted doc_file output_file)) w2)))
          else (Return (), emit (Log INFO (Docx_Converted doc_file output_file)) w1))"

definition convert_to_docx ::
  "program \<Rightarrow> decoder \<Rightarrow> string \<Rightarrow> string \<Rightarrow> string \<Rightarrow> bool \<Rightarrow> world \<Rightarrow> unit outcome \<times> world" where
  "convert_to_docx run decode libreoffice_path doc_file output_path overwrite w =
     (let output_file = docx_output_file output_path doc_file
      in if os_path_exists w output_file \<and> \<not> overwrite
         then (Return (), emit (Log INFO (Docx_Skipping output_file)) w)
         else
           let w0 = (if os_path_exists w output_file
                     then emit (Log INFO (Docx_Overwriting output_file)) w else w);
               command = libreoffice_command libreoffice_path doc_file output_path;
               w1 = emit (Spawn command) w0
           in case run command (fs w1) of
                Popen_raises e \<Rightarrow> (Raise e, w1)
              | Exited stdout stderr returncode files \<Rightarrow>
                  report_conversion decode doc_file output_file stdout stderr (w1\<lparr>fs := files\<rparr>))"

definition md_output_file :: "string \<Rightarrow> string \<Rightarrow> string" where
  "md_output_file output_directory docx_file =
     os_path_join output_directory (splitext_root (os_path_basename docx_file) @ ''.md'')"

definition pandoc_command :: "string \<Rightarrow> string \<Rightarrow> string \<Rightarrow> string list" where
  "pandoc_command pandoc_path docx_file output_file =
     [pandoc_path, ''-s'', docx_file, ''-t'', ''markdown'', ''-o'', output_file]"

definition convert_to_md ::
  "program \<Rightarrow> decoder \<Rightarrow> string \<Rightarrow> string \<Rightarrow> string \<Rightarrow> bool \<Rightarrow> bool \<Rightarrow> world
     \<Rightarrow> unit outcome \<times> world" where
  "convert_to_md run decode pandoc_path docx_file output_directory overwrite verbose w =
     (let output_file = md_output_file output_directory docx_file
      in if \<not> overwrite \<and> os_path_exists w output_file
         then (Return (), emit (Log INFO (Md_Skipping docx_file output_file)) w)
         else
           let w0 = emit (Log DEBUG (Md_Converting docx_file output_file)) w;
               command = pandoc_command pandoc_path docx_file output_file;
               w1 = emit (Spawn command) w0
           in case run command (fs w1) of
                Popen_raises e \<Rightarrow>
                  if is_Exception e
                  then (Return (), emit (Log ERROR (Md_Failed_exn docx_file output_file e)) w1)
                  else (Raise e, w1)
              | Exited stdout stderr returncode files \<Rightarrow>
                  (let w2 = w1\<lparr>fs := files\<rparr>
                   in if returncode \<noteq> 0
                      then (case decode stderr of
                              None \<Rightarrow> (Raise UnicodeDecodeError, w2)
                            | Some text \<Rightarrow>
                                (Return (), emit (Log ERROR (Md_Failed docx_file output_file text)) w2))
                      else if verbose
                      then (case decode stdout of
                              None \<Rightarrow> (Raise UnicodeDecodeError, w2)
                            | Some text \<Rightarrow>
                                (Return (),
                                 emit (Log INFO (Md_Finished docx_file output_file))
                                   (emit (Log DEBUG (Md_Pandoc_output docx_file text)) w2)))
                      else (Return (), emit (Log INFO (Md_Finished docx_file output_file)) w2)))"

section \<open>Auxiliary definitions for the statements\<close>

text \<open>The sum of the four counters of \<open>download_results\<close>.\<close>

definition tally_total :: "results \<Rightarrow> nat option" where
  "tally_total d =
     (case d ''success'' of None \<Rightarrow> None | Some s \<Rightarrow>
     (case d ''overwrite'' of None \<Rightarrow> None | Some ov \<Rightarrow>
     (case d ''skipped'' of None \<Rightarrow> None | Some sk \<Rightarrow>
     (case d ''error'' of None \<Rightarrow> None | Some er \<Rightarrow> Some (s + ov + sk + er)))))"

text \<open>
  An instance of the \<open>urljoin\<close> parameter for the examples: \<^verbatim>\<open>urljoin(base, href)\<close>
  returns an \<open>href\<close> that is itself an absolute \<open>http\<close> URL with a host as it is. It
  is used on such references only.
\<close>

definition urljoin_absolute :: "string \<Rightarrow> string \<Rightarrow> string outcome" where
  "urljoin_absolute base href = Return href"

text \<open>A world with the given files, no request made and nothing printed.\<close>

definition fresh_world :: "(string \<rightharpoonup> node) \<Rightarrow> world" where
  "fresh_world files = \<lparr>fs = files, dir_size = 4096, requests = 0, trace = []\<rparr>"

text \<open>
  What a step added to the trace, and the steps that only add events of a given kind.
\<close>

definition new_events :: "world \<Rightarrow> world \<Rightarrow> event list" where
  "new_events w w' = drop (length (trace w)) (trace w')"

definition adds_only :: "(event \<Rightarrow> bool) \<Rightarrow> world \<Rightarrow> world \<Rightarrow> bool" where
  "adds_only P w w' =
     (take (length (trace w)) (trace w') = trace w \<and> list_all P (new_events w w'))"

text \<open>The events one call of \<open>download_file\<close> can add.\<close>

fun download_event :: "string \<Rightarrow> string \<Rightarrow> int \<Rightarrow> event \<Rightarrow> bool" where
  "download_event url filename timeout (Print_Overwriting f) = (f = filename)"
| "download_event url filename timeout (Print_Skipping f) = (f = filename)"
| "download_event url filename timeout (Print_Downloading f a b) = (f = filename)"
| "download_event url filename timeout (Print_Downloaded f) = (f = filename)"
| "download_event url filename timeout (Print_Error f) = (f = filename)"
| "download_event url filename timeout (Print_Deleted f) = (f = filename)"
| "download_event url filename timeout (Http_Get x t) = (x = url \<and> t = timeout)"
| "download_event url filename timeout e = False"

text \<open>The URLs requested in a list of events, and the events that request only given URLs.\<close>

definition requested_urls :: "event list \<Rightarrow> string list" where
  "requested_urls events = concat (map (\<lambda>e. case e of Http_Get x t \<Rightarrow> [x] | _ \<Rightarrow> []) events)"

fun requests_within :: "string list \<Rightarrow> event \<Rightarrow> bool" where
  "requests_within urls (Http_Get x t) = (x \<in> set urls)"
| "requests_within urls e = True"

text \<open>The results of a list of calls: the first exception, or all the values.\<close>

fun collect :: "'a outcome list \<Rightarrow> 'a list outcome" where
  "collect [] = Return []"
| "collect (x # xs) =
     (case x of
        Raise e \<Rightarrow> Raise e
      | Return v \<Rightarrow> (case collect xs of Raise e \<Rightarrow> Raise e | Return vs \<Rightarrow> Return (v # vs)))"

text \<open>
  Claim C7 speaks of the path of the resolved URL. For an absolute URL
  \<^verbatim>\<open>scheme://host/path?query#fragment\<close> that is the text from the first slash after
  the host up to the first \<^verbatim>\<open>?\<close> or \<^verbatim>\<open>#\<close>. \<open>selected_by_path\<close> is the
  selection as the claim words it.
\<close>

definition url_path :: "string \<Rightarrow> string" where
  "url_path u =
     (let after_scheme = drop 3 (dropWhile (\<lambda>c. c \<noteq> CHR '':'') u);
          from_path = dropWhile (\<lambda>c. c \<noteq> CHR ''/'' \<and> c \<noteq> CHR ''?'' \<and> c \<noteq> CHR ''#'') after_scheme
      in takeWhile (\<lambda>c. c \<noteq> CHR ''?'' \<and> c \<noteq> CHR ''#'') from_path)"

definition selected_by_path ::
  "(string \<Rightarrow> string \<Rightarrow> string outcome) \<Rightarrow> string \<Rightarrow> string list \<Rightarrow> string \<Rightarrow> bool" where
  "selected_by_path urljoin url extensions href =
     (case urljoin url href of
        Raise e \<Rightarrow> False
      | Return resolved \<Rightarrow>
          list_ex (\<lambda>extension. endswith (url_path resolved) extension) extensions)"

section \<open>Facts about the string methods\<close>

lemma startswith_iff_append: "startswith s p \<longleftrightarrow> (\<exists>r. s = p @ r)"
  by (induction s p rule: startswith.induct) auto

lemma endswith_iff_append: "endswith s e \<longleftrightarrow> (\<exists>r. s = r @ e)"
proof -
  have "endswith s e \<longleftrightarrow> (\<exists>r. rev s = rev e @ r)"
    by (simp add: endswith_def startswith_iff_append)
  also have "\<dots> \<longleftrightarrow> (\<exists>r. s = r @ e)"
  proof
    assume "\<exists>r. rev s = rev e @ r"
    then obtain r where "rev s = rev e @ r" ..
    then have "s = rev r @ e" by (simp add: rev_swap)
    then show "\<exists>r. s = r @ e" ..
  next
    assume "\<exists>r. s = r @ e"
    then obtain r where "s = r @ e" ..
    then have "rev s = rev e @ rev r" by simp
    then show "\<exists>r. rev s = rev e @ r" ..
  qed
  finally show ?thesis .
qed

section \<open>The validators\<close>

text \<open>
  Claim C8. \<open>valid_url\<close> raises the argument error exactly when its argument begins
  with neither \<open>http://\<close> nor \<open>https://\<close>, and returns the argument itself otherwise;
  \<open>valid_extension\<close> raises exactly when its argument does not begin with a dot, and
  returns the argument itself otherwise. An outcome is always one of the two. Both are
  functions of the string alone: they take no \<open>world\<close> and return none, as the source
  calls nothing but \<^verbatim>\<open>str.startswith\<close>.
\<close>

theorem validators_reject_exactly:
  "((\<exists>m. valid_url s = Raise (ArgumentTypeError m)) \<longleftrightarrow>
      \<not> ((\<exists>r. s = ''http://'' @ r) \<or> (\<exists>r. s = ''https://'' @ r)))
   \<and> (valid_url s = Return s \<longleftrightarrow>
        ((\<exists>r. s = ''http://'' @ r) \<or> (\<exists>r. s = ''https://'' @ r)))
   \<and> (\<forall>v. valid_url s = Return v \<longrightarrow> v = s)
   \<and> (\<forall>x. valid_url s = Raise x \<longrightarrow> (\<exists>m. x = ArgumentTypeError m))
   \<and> ((\<exists>m. valid_extension t = Raise (ArgumentTypeError m)) \<longleftrightarrow> \<not> (\<exists>r. t = ''.'' @ r))
   \<and> (valid_extension t = Return t \<longleftrightarrow> (\<exists>r. t = ''.'' @ r))
   \<and> (\<forall>v. valid_extension t = Return v \<longrightarrow> v = t)
   \<and> (\<forall>x. valid_extension t = Raise x \<longrightarrow> (\<exists>m. x = ArgumentTypeError m))"
proof -
  have u: "startswith s ''http://'' \<longleftrightarrow> (\<exists>r. s = ''http://'' @ r)"
    by (rule startswith_iff_append)
  have v: "startswith s ''https://'' \<longleftrightarrow> (\<exists>r. s = ''https://'' @ r)"
    by (rule startswith_iff_append)
  have e: "startswith t ''.'' \<longleftrightarrow> (\<exists>r. t = ''.'' @ r)"
    by (rule startswith_iff_append)
  have 1: "(\<exists>m. valid_url s = Raise (ArgumentTypeError m)) \<longleftrightarrow>
      \<not> ((\<exists>r. s = ''http://'' @ r) \<or> (\<exists>r. s = ''https://'' @ r))"
    unfolding u [symmetric] v [symmetric] by (simp add: valid_url_def)
  have 2: "valid_url s = Return s \<longleftrightarrow>
        ((\<exists>r. s = ''http://'' @ r) \<or> (\<exists>r. s = ''https://'' @ r))"
    unfolding u [symmetric] v [symmetric] by (simp add: valid_url_def)
  have 3: "\<forall>v. valid_url s = Return v \<longrightarrow> v = s"
    by (simp add: valid_url_def)
  have 4: "\<forall>x. valid_url s = Raise x \<longrightarrow> (\<exists>m. x = ArgumentTypeError m)"
    by (auto simp: valid_url_def)
  have 5: "(\<exists>m. valid_extension t = Raise (ArgumentTypeError m)) \<longleftrightarrow> \<not> (\<exists>r. t = ''.'' @ r)"
    unfolding e [symmetric] by (simp add: valid_extension_def)
  have 6: "valid_extension t = Return t \<longleftrightarrow> (\<exists>r. t = ''.'' @ r)"
    unfolding e [symmetric] by (simp add: valid_extension_def)
  have 7: "\<forall>v. valid_extension t = Return v \<longrightarrow> v = t"
    by (simp add: valid_extension_def)
  have 8: "\<forall>x. valid_extension t = Raise x \<longrightarrow> (\<exists>m. x = ArgumentTypeError m)"
    by (auto simp: valid_extension_def)
  from 1 2 3 4 5 6 7 8 show ?thesis by blast
qed

theorem validators_reject_exactly_witness:
  "valid_url ''https://example.com/docs'' = Return ''https://example.com/docs''
   \<and> (\<exists>m. valid_url ''ftp://example.com'' = Raise (ArgumentTypeError m))
   \<and> valid_extension ''.pdf'' = Return ''.pdf''
   \<and> (\<exists>m. valid_extension ''pdf'' = Raise (ArgumentTypeError m))"
proof -
  note t = validators_reject_exactly [of "''https://example.com/docs''" "''.pdf''"]
  note f = validators_reject_exactly [of "''ftp://example.com''" "''pdf''"]
  have a: "valid_url ''https://example.com/docs'' = Return ''https://example.com/docs''"
    using t by simp
  have b: "\<exists>m. valid_url ''ftp://example.com'' = Raise (ArgumentTypeError m)"
    using f by simp
  have c: "valid_extension ''.pdf'' = Return ''.pdf''"
    using t by simp
  have d: "\<exists>m. valid_extension ''pdf'' = Raise (ArgumentTypeError m)"
    using f by simp
  from a b c d show ?thesis by blast
qed

section \<open>Facts about download\_file\<close>

lemma fs_emit [simp]: "fs (emit e w) = fs w" by (simp add: emit_def)
lemma dir_size_emit [simp]: "dir_size (emit e w) = dir_size w" by (simp add: emit_def)
lemma requests_emit [simp]: "requests (emit e w) = requests w" by (simp add: emit_def)
lemma trace_emit [simp]: "trace (emit e w) = trace w @ [e]" by (simp add: emit_def)

lemma fs_write_chunks:
  "fs w f = Some (File b) \<Longrightarrow>
   fs (write_chunks f v t chunks w) = (fs w)(f \<mapsto> File (b @ concat chunks))"
proof (induction chunks arbitrary: w b)
  case Nil
  then show ?case by (simp add: fun_upd_idem)
next
  case (Cons data rest)
  let ?w1 = "f_write f data w"
  have 1: "fs ?w1 = (fs w)(f \<mapsto> File (b @ data))"
    using Cons.prems by (simp add: f_write_def written_def)
  let ?w2 = "if v then emit (Print_Downloading f (length (written ?w1 f)) (t - int (length (written ?w1 f)))) ?w1 else ?w1"
  have 2: "fs ?w2 f = Some (File (b @ data))" using 1 by simp
  have "fs (write_chunks f v t rest ?w2) = (fs ?w2)(f \<mapsto> File ((b @ data) @ concat rest))"
    by (rule Cons.IH [OF 2])
  moreover have "fs ?w2 = (fs w)(f \<mapsto> File (b @ data))" using 1 by simp
  ultimately show ?case by (simp add: Let_def)
qed

lemma dir_size_write_chunks [simp]: "dir_size (write_chunks f v t chunks w) = dir_size w"
  by (induction chunks arbitrary: w) (simp_all add: Let_def f_write_def)

lemma fs_after_stream:
  "fs (write_chunks f v t chunks (open_wb f w)) = (fs w)(f \<mapsto> File (concat chunks))"
proof -
  have "fs (open_wb f w) f = Some (File [])" by (simp add: open_wb_def)
  from fs_write_chunks [OF this, of v t chunks]
  show ?thesis by (simp add: open_wb_def)
qed

lemma finally_block_file:
  "fs w f = Some (File b) \<Longrightarrow>
   finally_block f (Some t) pending w =
     (if int (length b) \<noteq> t then (pending, emit (Print_Deleted f) (os_remove_file f w))
      else (pending, w))"
  by (simp add: finally_block_def os_path_getsize_def)

lemma download_file_streamed:
  assumes "net (requests w) url = Response header chunks ending"
    and "header \<noteq> Unparsable"
    and "fs w filename \<noteq> Some Dir"
    and "\<not> (os_path_exists w filename \<and> \<not> overwrite)"
    and "download_file net url filename verbose overwrite timeout w = (r, w')"
  shows "fs w' = (if int (length (concat chunks)) = (case header of Parsed n \<Rightarrow> n | _ \<Rightarrow> 0)
                  then (fs w)(filename \<mapsto> File (concat chunks))
                  else (fs w)(filename := None))
       \<and> r = (case ending of Complete \<Rightarrow> Return ''success''
               | Broken e \<Rightarrow> if e = RequestException then Return ''error'' else Raise e)"
  using assms
  apply (cases header; cases ending; cases verbose)
  apply (auto simp: download_file_def Let_def except_clause_def fs_after_stream finally_block_file os_remove_file_def
        split: option.splits node.splits if_splits)
  done

section \<open>The tally of the download loop\<close>

lemma download_file_returns:
  "download_file net url filename verbose overwrite timeout w = (Return r, w') \<Longrightarrow>
   r = ''skipped'' \<or> r = ''success'' \<or> r = ''error''"
  by (auto simp: download_file_def Let_def except_clause_def finally_block_def
      split: if_splits get_outcome.splits content_length.splits option.splits node.splits ending.splits)

lemma count_up_total:
  assumes "count_up d k = Return d'" and "tally_total d = Some n"
    and "k = ''skipped'' \<or> k = ''success'' \<or> k = ''error''"
  shows "tally_total d' = Some (Suc n) \<and> d' ''overwrite'' = d ''overwrite''"
  using assms
  by (auto simp: count_up_def tally_total_def split: option.splits)

lemma interrupt_handler_total:
  assumes "interrupt_handler filename d w = (Return d', w')" and "tally_total d = Some n"
  shows "tally_total d' = Some (Suc n) \<and> d' ''overwrite'' = d ''overwrite''
         \<and> Print_Interrupted filename \<in> set (trace w')"
proof -
  from assms(1) have c: "count_up d ''error'' = Return d'"
    by (auto simp: interrupt_handler_def Let_def split: option.splits node.splits)
  from assms(1) have t: "Print_Interrupted filename \<in> set (trace w')"
    by (auto simp: interrupt_handler_def Let_def os_remove_file_def emit_def split: option.splits node.splits)
  from count_up_total [OF c assms(2)] t show ?thesis by simp
qed

section \<open>What a run adds to the trace\<close>

lemma adds_only_iff:
  "adds_only P w w' \<longleftrightarrow> (\<exists>events. trace w' = trace w @ events \<and> list_all P events)"
proof
  assume a: "adds_only P w w'"
  then have "trace w' = trace w @ new_events w w'"
    unfolding adds_only_def new_events_def by (metis append_take_drop_id)
  with a show "\<exists>events. trace w' = trace w @ events \<and> list_all P events"
    unfolding adds_only_def by blast
next
  assume "\<exists>events. trace w' = trace w @ events \<and> list_all P events"
  then show "adds_only P w w'" by (auto simp: adds_only_def new_events_def)
qed

lemma adds_onlyD:
  "adds_only P w w' \<Longrightarrow> trace w' = trace w @ new_events w w' \<and> list_all P (new_events w w')"
  unfolding adds_only_def new_events_def by (metis append_take_drop_id)

lemma adds_only_refl: "adds_only P w w"
  by (simp add: adds_only_iff)

lemma adds_only_emit: "adds_only P w x \<Longrightarrow> P e \<Longrightarrow> adds_only P w (emit e x)"
  by (auto simp: adds_only_iff)

lemma adds_only_fs: "adds_only P w x \<Longrightarrow> adds_only P w (x\<lparr>fs := g\<rparr>)"
  by (simp add: adds_only_iff)

lemma adds_only_requests: "adds_only P w x \<Longrightarrow> adds_only P w (x\<lparr>requests := k\<rparr>)"
  by (simp add: adds_only_iff)

lemma adds_only_trans:
  "adds_only P w w1 \<Longrightarrow> adds_only P w1 w2 \<Longrightarrow> adds_only P w w2"
  by (auto simp: adds_only_iff)

lemma adds_only_mono:
  "adds_only P w w' \<Longrightarrow> (\<And>e. P e \<Longrightarrow> Q e) \<Longrightarrow> adds_only Q w w'"
  by (auto simp: adds_only_iff list_all_iff)

lemma new_events_trans:
  "adds_only P w w1 \<Longrightarrow> adds_only Q w1 w2 \<Longrightarrow> new_events w w2 = new_events w w1 @ new_events w1 w2"
  by (auto simp: adds_only_iff new_events_def)

lemma adds_only_write_chunks:
  "adds_only P w x \<Longrightarrow> (\<And>a b. P (Print_Downloading f a b)) \<Longrightarrow>
   adds_only P w (write_chunks f v t chunks x)"
proof (induction chunks arbitrary: x)
  case Nil
  then show ?case by simp
next
  case (Cons data rest)
  let ?w1 = "f_write f data x"
  let ?w2 = "if v then emit (Print_Downloading f (length (written ?w1 f))
                              (t - int (length (written ?w1 f)))) ?w1
             else ?w1"
  have 1: "adds_only P w ?w1"
    using Cons.prems(1) by (simp add: f_write_def adds_only_fs)
  have 2: "adds_only P w ?w2"
    using 1 Cons.prems(2) by (simp add: adds_only_emit)
  from Cons.IH [OF 2 Cons.prems(2)] show ?case by (simp add: Let_def)
qed

lemma adds_only_finally_block:
  "adds_only P w x \<Longrightarrow> P (Print_Deleted f) \<Longrightarrow>
   adds_only P w (snd (finally_block f ts pending x))"
  by (auto simp: finally_block_def os_remove_file_def split: option.splits node.splits
      intro!: adds_only_emit adds_only_fs)

lemma adds_only_except_clause:
  "adds_only P w x \<Longrightarrow> P (Print_Deleted f) \<Longrightarrow> P (Print_Error f) \<Longrightarrow>
   adds_only P w (snd (except_clause f ts e x))"
  by (auto simp: except_clause_def intro!: adds_only_finally_block adds_only_emit)

lemma adds_only_download_file:
  "adds_only (download_event url filename timeout) w
     (snd (download_file net url filename verbose overwrite timeout w))"
  by (auto simp: download_file_def Let_def open_wb_def
      split: get_outcome.splits content_length.splits option.splits node.splits ending.splits
      intro!: adds_only_emit adds_only_fs adds_only_requests adds_only_refl
        adds_only_except_clause adds_only_finally_block adds_only_write_chunks)

lemma download_event_requests_within:
  "download_event url filename timeout e \<Longrightarrow> requests_within (url # rest) e"
  by (cases e) auto

lemma requests_within_Cons: "requests_within rest e \<Longrightarrow> requests_within (url # rest) e"
  by (cases e) auto

lemma adds_only_interrupt_handler:
  "adds_only (requests_within files) w1 (snd (interrupt_handler filename d w1))
   \<and> Print_Interrupted filename \<in> set (new_events w1 (snd (interrupt_handler filename d w1)))"
  by (auto simp: interrupt_handler_def Let_def os_remove_file_def emit_def adds_only_iff new_events_def
      split: option.splits node.splits)

lemma adds_only_download_loop:
  "adds_only (requests_within files) w (snd (download_loop net pf verbose overwrite timeout files d w))"
proof (induction files arbitrary: d w)
  case Nil
  show ?case by (simp add: adds_only_refl)
next
  case (Cons u rest)
  let ?filename = "os_path_join pf (os_path_basename u)"
  let ?step = "download_file net u ?filename verbose overwrite timeout w"
  have s: "adds_only (requests_within (u # rest)) w (snd ?step)"
    by (rule adds_only_mono [OF adds_only_download_file]) (rule download_event_requests_within)
  have r: "\<And>d1. adds_only (requests_within (u # rest)) (snd ?step)
             (snd (download_loop net pf verbose overwrite timeout rest d1 (snd ?step)))"
    by (rule adds_only_mono [OF Cons.IH]) (rule requests_within_Cons)
  have i: "adds_only (requests_within (u # rest)) (snd ?step) (snd (interrupt_handler ?filename d (snd ?step)))"
    using adds_only_interrupt_handler by blast
  show ?case
    using s r i
    by (auto simp: Let_def split: prod.splits outcome.splits intro: adds_only_trans)
qed

section \<open>The tally and the candidates\<close>

lemma download_loop_total:
  "download_loop net pf verbose overwrite timeout files d w = (Return d', w') \<Longrightarrow>
   tally_total d = Some n \<Longrightarrow>
   \<exists>m. tally_total d' = Some (n + m) \<and> m \<le> length files
       \<and> d' ''overwrite'' = d ''overwrite''
       \<and> ((\<forall>f. Print_Interrupted f \<notin> set (new_events w w')) \<longrightarrow> m = length files)"
proof (induction files arbitrary: d w n)
  case Nil
  then show ?case by simp
next
  case (Cons u rest)
  let ?filename = "os_path_join pf (os_path_basename u)"
  obtain r w1 where df: "download_file net u ?filename verbose overwrite timeout w = (r, w1)"
    by (cases "download_file net u ?filename verbose overwrite timeout w")
  from adds_only_download_file [of u ?filename timeout w net verbose overwrite] df
  have a1: "adds_only (download_event u ?filename timeout) w w1" by simp
  show ?case
  proof (cases r)
    case (Return result)
    from df Return have k: "result = ''skipped'' \<or> result = ''success'' \<or> result = ''error''"
      by (auto dest: download_file_returns)
    from Cons.prems(1) df Return obtain d1 where
      c: "count_up d result = Return d1"
      and l: "download_loop net pf verbose overwrite timeout rest d1 w1 = (Return d', w')"
      by (auto simp: Let_def split: outcome.splits)
    from adds_only_download_loop [of rest w1 net pf verbose overwrite timeout d1] l
    have a2: "adds_only (requests_within rest) w1 w'" by simp
    from new_events_trans [OF a1 a2]
    have ne: "new_events w w' = new_events w w1 @ new_events w1 w'" .
    from count_up_total [OF c Cons.prems(2) k]
    have t: "tally_total d1 = Some (Suc n)" and o: "d1 ''overwrite'' = d ''overwrite''" by simp_all
    from Cons.IH [OF l t] obtain m where
      "tally_total d' = Some (Suc n + m)" "m \<le> length rest" "d' ''overwrite'' = d1 ''overwrite''"
      "(\<forall>f. Print_Interrupted f \<notin> set (new_events w1 w')) \<longrightarrow> m = length rest"
      by blast
    with o ne have "tally_total d' = Some (n + Suc m) \<and> Suc m \<le> length (u # rest)
       \<and> d' ''overwrite'' = d ''overwrite''
       \<and> ((\<forall>f. Print_Interrupted f \<notin> set (new_events w w')) \<longrightarrow> Suc m = length (u # rest))"
      by simp
    then show ?thesis by blast
  next
    case (Raise e)
    from Cons.prems(1) df Raise have h: "interrupt_handler ?filename d w1 = (Return d', w')"
      by (auto simp: Let_def split: if_splits)
    from adds_only_interrupt_handler [of rest w1 ?filename d] h
    have a2: "adds_only (requests_within rest) w1 w'"
      and p: "Print_Interrupted ?filename \<in> set (new_events w1 w')" by simp_all
    from new_events_trans [OF a1 a2] p
    have "Print_Interrupted ?filename \<in> set (new_events w w')" by simp
    then have q: "\<not> (\<forall>f. Print_Interrupted f \<notin> set (new_events w w'))" by blast
    from interrupt_handler_total [OF h Cons.prems(2)]
    have x: "tally_total d' = Some (n + 1) \<and> (1::nat) \<le> length (u # rest)
       \<and> d' ''overwrite'' = d ''overwrite''" by simp
    from q have y: "(\<forall>f. Print_Interrupted f \<notin> set (new_events w w')) \<longrightarrow> 1 = length (u # rest)"
      by blast
    from x y show ?thesis by blast
  qed
qed

lemma tally_total_initial: "tally_total initial_results = Some 0 \<and> initial_results ''overwrite'' = Some 0"
  by (simp add: tally_total_def initial_results_def)

lemma print_results_total:
  "print_results d w = (Return u, w') \<Longrightarrow>
   \<exists>s ov sk er. printed_results w' = Some (s, ov, sk, er) \<and> tally_total d = Some (s + ov + sk + er)
      \<and> d ''overwrite'' = Some ov \<and> trace w' = trace w @ [Print_Results s ov sk er]"
  by (auto simp: print_results_def printed_results_def tally_total_def split: option.splits)

lemmas run_defs = download_files_def resolve_kept_def fresh_world_def os_path_exists_def os_makedirs_def emit_def
      urljoin_absolute_def endswith_def Let_def download_file_def os_path_join_def os_path_basename_def
      except_clause_def finally_block_def open_wb_def f_write_def written_def os_path_getsize_def
      os_remove_file_def interrupt_handler_def count_up_def initial_results_def print_results_def printed_results_def

lemma requested_urls_within:
  "adds_only (requests_within urls) w w' \<Longrightarrow> set (requested_urls (new_events w w')) \<subseteq> set urls"
proof -
  have "list_all (requests_within urls) events \<Longrightarrow> set (requested_urls events) \<subseteq> set urls"
    for events
    by (induction events) (auto simp: requested_urls_def split: event.splits)
  then show "adds_only (requests_within urls) w w' \<Longrightarrow> ?thesis"
    by (simp add: adds_only_def)
qed

lemma requests_within_mono:
  "requests_within urls e \<Longrightarrow> set urls \<subseteq> set urls' \<Longrightarrow> requests_within urls' e"
  by (cases e) auto

lemma adds_only_print_results:
  "adds_only P w x \<Longrightarrow> (\<And>a b c d. P (Print_Results a b c d)) \<Longrightarrow>
   adds_only P w (snd (print_results d x))"
  by (auto simp: print_results_def split: option.splits intro!: adds_only_emit)

lemma adds_only_download_files:
  assumes "\<And>links. page = Page links \<Longrightarrow> files_to_download urljoin url extensions links = Return files"
  shows "adds_only (requests_within (url # files)) w
           (snd (download_files page net urljoin url extensions pf cf verbose overwrite timeout w))"
proof -
  let ?P = "requests_within (url # files)"
  have l: "\<And>d x. adds_only ?P w x \<Longrightarrow>
             adds_only ?P w (snd (download_loop net pf verbose overwrite timeout files d x))"
  proof -
    fix d x
    assume "adds_only ?P w x"
    moreover have "adds_only ?P x (snd (download_loop net pf verbose overwrite timeout files d x))"
      by (rule adds_only_mono [OF adds_only_download_loop]) (auto elim: requests_within_mono)
    ultimately show "adds_only ?P w (snd (download_loop net pf verbose overwrite timeout files d x))"
      by (rule adds_only_trans)
  qed
  have p: "\<And>d x. adds_only ?P w x \<Longrightarrow> adds_only ?P w (snd (print_results d x))"
    by (rule adds_only_print_results) simp_all
  have pre: "adds_only ?P w (emit (Http_Get url timeout) (os_makedirs pf w\<lparr>requests := Suc (requests w)\<rparr>))"
    "adds_only ?P w (emit (Http_Get url timeout) (w\<lparr>requests := Suc (requests w)\<rparr>))"
    by (auto simp: os_makedirs_def intro!: adds_only_emit adds_only_requests adds_only_fs adds_only_refl)
  have l': "\<And>d x r w3. download_loop net pf verbose overwrite timeout files d x = (r, w3) \<Longrightarrow>
              adds_only ?P w x \<Longrightarrow> adds_only ?P w w3"
    using l by (metis snd_conv)
  have f: "\<And>x. adds_only ?P w x \<Longrightarrow> adds_only ?P w (emit (Print_Files (map os_path_basename files)) x)"
    by (rule adds_only_emit) simp_all
  show ?thesis
  proof (cases "\<not> os_path_exists w pf \<and> \<not> cf")
    case True
    then show ?thesis by (simp add: download_files_def adds_only_refl)
  next
    case False
    let ?w0 = "if \<not> os_path_exists w pf then os_makedirs pf w else w"
    let ?w1 = "emit (Http_Get url timeout) (?w0\<lparr>requests := Suc (requests ?w0)\<rparr>)"
    have w1: "adds_only ?P w ?w1"
      by (auto simp: os_makedirs_def intro!: adds_only_emit adds_only_requests adds_only_fs adds_only_refl)
    show ?thesis
    proof (cases page)
      case (Page_raises e)
      with w1 show ?thesis
        unfolding download_files_def if_not_P [OF False] by (simp add: Let_def)
    next
      case (Page links')
      then have ftd: "files_to_download urljoin url extensions links' = Return files" by (rule assms)
      let ?w2 = "if verbose then emit (Print_Files (map os_path_basename files)) ?w1 else ?w1"
      have w2: "adds_only ?P w ?w2" using w1 f by simp
      obtain r w3 where loop: "download_loop net pf verbose overwrite timeout files initial_results ?w2
          = (r, w3)" by (cases "download_loop net pf verbose overwrite timeout files initial_results ?w2")
      from l' [OF loop w2] have w3: "adds_only ?P w w3" .
      have run: "download_files page net urljoin url extensions pf cf verbose overwrite timeout w
            = (case r of Raise e \<Rightarrow> (Raise e, w3) | Return d \<Rightarrow> print_results d w3)"
        unfolding download_files_def if_not_P [OF False]
        using Page ftd loop by (simp add: Let_def split: outcome.splits)
      show ?thesis
        unfolding run using w3 p by (cases r) simp_all
    qed
  qed
qed

lemma download_files_returns:
  assumes "download_files page net urljoin url extensions pf cf verbose overwrite timeout w = (Return u, w')"
  shows "\<exists>links files d w2 w3. page = Page links
          \<and> files_to_download urljoin url extensions links = Return files
          \<and> adds_only (\<lambda>e. True) w w2
          \<and> download_loop net pf verbose overwrite timeout files initial_results w2 = (Return d, w3)
          \<and> print_results d w3 = (Return u, w')"
proof -
  have guard: "\<not> (\<not> os_path_exists w pf \<and> \<not> cf)"
  proof
    assume "\<not> os_path_exists w pf \<and> \<not> cf"
    then have "download_files page net urljoin url extensions pf cf verbose overwrite timeout w
                 = (Raise FileNotFoundError, w)"
      by (simp add: download_files_def)
    with assms show False by simp
  qed
  let ?w0 = "if \<not> os_path_exists w pf then os_makedirs pf w else w"
  let ?w1 = "emit (Http_Get url timeout) (?w0\<lparr>requests := Suc (requests ?w0)\<rparr>)"
  have w1: "adds_only (\<lambda>e. True) w ?w1"
    by (auto simp: os_makedirs_def intro!: adds_only_emit adds_only_requests adds_only_fs adds_only_refl)
  note unfolded = assms [unfolded download_files_def if_not_P [OF guard]]
  from unfolded obtain links where p: "page = Page links"
    by (cases page) (simp_all add: Let_def)
  from unfolded p obtain files where f: "files_to_download urljoin url extensions links = Return files"
    by (cases "files_to_download urljoin url extensions links") (simp_all add: Let_def)
  let ?w2 = "if verbose then emit (Print_Files (map os_path_basename files)) ?w1 else ?w1"
  have w2: "adds_only (\<lambda>e. True) w ?w2" using w1 by (simp add: adds_only_emit)
  obtain r w3 where loop: "download_loop net pf verbose overwrite timeout files initial_results ?w2
          = (r, w3)" by (cases "download_loop net pf verbose overwrite timeout files initial_results ?w2")
  from unfolded p f loop have e: "(case r of Raise e \<Rightarrow> (Raise e, w3) | Return d \<Rightarrow> print_results d w3)
        = (Return u, w')"
    by (simp add: Let_def split: outcome.splits)
  then obtain d where r: "r = Return d" and pr: "print_results d w3 = (Return u, w')"
    by (cases r) simp_all
  from p f w2 loop r pr show ?thesis by blast
qed

text \<open>
  Claim C4, as amended. A run of \<open>download_files\<close> that returns has printed a tally last.
  Its four counts sum to at most the number of candidate links the extension filter kept,
  and to exactly that number when no download was interrupted by the user (the run
  printed no \<open>Interrupted\<close> line).
\<close>

theorem tally_counts_candidates_tried:
  assumes "download_files page net urljoin url extensions project_folder create_folder verbose
             overwrite timeout w = (Return u, w')"
  shows "\<exists>links files s ov sk er.
           page = Page links
         \<and> files_to_download urljoin url extensions links = Return files
         \<and> printed_results w' = Some (s, ov, sk, er)
         \<and> s + ov + sk + er \<le> length files
         \<and> ((\<forall>f. Print_Interrupted f \<notin> set (new_events w w')) \<longrightarrow> s + ov + sk + er = length files)"
proof -
  from download_files_returns [OF assms] obtain links files d w2 w3 where
    p: "page = Page links"
    and f: "files_to_download urljoin url extensions links = Return files"
    and a1: "adds_only (\<lambda>e. True) w w2"
    and l: "download_loop net project_folder verbose overwrite timeout files initial_results w2 = (Return d, w3)"
    and r: "print_results d w3 = (Return u, w')"
    by blast
  from tally_total_initial have i: "tally_total initial_results = Some 0" by simp
  from download_loop_total [OF l i] obtain m where
    t: "tally_total d = Some (0 + m)" and m: "m \<le> length files"
    and full: "(\<forall>f. Print_Interrupted f \<notin> set (new_events w2 w3)) \<longrightarrow> m = length files"
    by blast
  from print_results_total [OF r] obtain s ov sk er where
    pr: "printed_results w' = Some (s, ov, sk, er)"
    and tt: "tally_total d = Some (s + ov + sk + er)"
    and tr: "trace w' = trace w3 @ [Print_Results s ov sk er]"
    by blast
  from t tt have e: "s + ov + sk + er = m" by simp
  from adds_only_download_loop [of files w2 net project_folder verbose overwrite timeout initial_results] l
  have a2: "adds_only (requests_within files) w2 w3" by simp
  from tr have a3: "adds_only (\<lambda>e. True) w3 w'" by (simp add: adds_only_iff)
  from adds_only_mono [OF a2, of "\<lambda>e. True"] have a2': "adds_only (\<lambda>e. True) w2 w3" by simp
  from new_events_trans [OF a1 a2'] have n1: "new_events w w3 = new_events w w2 @ new_events w2 w3" .
  from new_events_trans [OF adds_only_trans [OF a1 a2'] a3]
  have n2: "new_events w w' = new_events w w3 @ new_events w3 w'" .
  from n1 n2 have "set (new_events w2 w3) \<subseteq> set (new_events w w')" by auto
  with full have "(\<forall>f. Print_Interrupted f \<notin> set (new_events w w')) \<longrightarrow> m = length files"
    by blast
  with p f pr e m show ?thesis by blast
qed

theorem tally_counts_candidates_tried_witness:
  "\<exists>files s ov sk er.
      files_to_download urljoin_absolute ''http://h.example/'' [''.pdf'']
        [Some ''http://h.example/a.pdf'', Some ''index.html'', Some ''http://h.example/b.pdf'']
        = Return files
    \<and> printed_results (snd (download_files
          (Page [Some ''http://h.example/a.pdf'', Some ''index.html'', Some ''http://h.example/b.pdf''])
          (\<lambda>i u. Response (Parsed 3) [''ab'', ''c''] Complete) urljoin_absolute ''http://h.example/''
          [''.pdf''] ''out'' True False False 30 (fresh_world Map.empty))) = Some (s, ov, sk, er)
    \<and> s + ov + sk + er = length files \<and> length files = 2"
proof -
  let ?page = "Page [Some ''http://h.example/a.pdf'', Some ''index.html'', Some ''http://h.example/b.pdf'']"
  let ?run = "download_files ?page
          (\<lambda>i u. Response (Parsed 3) [''ab'', ''c''] Complete) urljoin_absolute ''http://h.example/''
          [''.pdf''] ''out'' True False False 30 (fresh_world Map.empty)"
  have r: "fst ?run = Return ()" by (simp add: run_defs)
  then have run: "?run = (Return (), snd ?run)" by (simp add: prod_eq_iff)
  have quiet: "\<forall>f. Print_Interrupted f \<notin> set (new_events (fresh_world Map.empty) (snd ?run))"
    by (simp add: run_defs new_events_def)
  have n: "files_to_download urljoin_absolute ''http://h.example/'' [''.pdf'']
        [Some ''http://h.example/a.pdf'', Some ''index.html'', Some ''http://h.example/b.pdf'']
        = Return [''http://h.example/a.pdf'', ''http://h.example/b.pdf'']"
    by (simp add: run_defs)
  from tally_counts_candidates_tried [OF run] quiet n show ?thesis by auto
qed

text \<open>
  Claim C4 as stated fails: of two candidate links, the first download is interrupted by
  the user in mid-stream; the loop stops and the tally printed sums to one.
\<close>

theorem tally_short_after_interruption:
  "files_to_download urljoin_absolute ''http://h.example/'' [''.pdf'']
        [Some ''http://h.example/a.pdf'', Some ''http://h.example/b.pdf'']
      = Return [''http://h.example/a.pdf'', ''http://h.example/b.pdf'']
   \<and> download_files (Page [Some ''http://h.example/a.pdf'', Some ''http://h.example/b.pdf''])
        (\<lambda>i u. Response (Parsed 6) [''abc''] (Broken KeyboardInterrupt)) urljoin_absolute
        ''http://h.example/'' [''.pdf''] ''out'' True False False 30 (fresh_world Map.empty)
      = (Return (),
         \<lparr>fs = [''out'' \<mapsto> Dir], dir_size = 4096, requests = 2,
          trace = [Http_Get ''http://h.example/'' 30, Http_Get ''http://h.example/a.pdf'' 30,
                   Print_Deleted ''out/a.pdf'', Print_Interrupted ''out/a.pdf'',
                   Print_Results 0 0 0 1]\<rparr>)"
  by (simp add: run_defs)

section \<open>download\_file: the size check\<close>

text \<open>
  Claim C2. The request returned a response advertising Content-Length \<open>n\<close>, and the
  stream delivered \<open>chunks\<close> before it completed or raised. The file then holds the
  concatenation of the chunks. If its size differs from \<open>n\<close> the file does not exist
  when \<open>download_file\<close> ends, and the deletion is the last thing printed; if the size is
  \<open>n\<close> the file is kept with these bytes.
\<close>

theorem size_mismatch_is_deleted:
  assumes "net (requests w) url = Response (Parsed n) chunks ending"
    and "fs w filename \<noteq> Some Dir"
    and "\<not> (os_path_exists w filename \<and> \<not> overwrite)"
    and "download_file net url filename verbose overwrite timeout w = (r, w')"
  shows "written (write_chunks filename verbose n chunks (open_wb filename w0)) filename = concat chunks
       \<and> (int (length (concat chunks)) \<noteq> n \<longrightarrow>
            \<not> os_path_exists w' filename \<and> last (trace w') = Print_Deleted filename)
       \<and> (int (length (concat chunks)) = n \<longrightarrow> fs w' filename = Some (File (concat chunks)))"
proof -
  have a: "written (write_chunks filename verbose n chunks (open_wb filename w0)) filename = concat chunks"
    by (simp add: written_def fs_after_stream)
  have h: "Parsed n \<noteq> Unparsable" by simp
  from download_file_streamed [OF assms(1) h assms(2) assms(3) assms(4)]
  have f: "fs w' = (if int (length (concat chunks)) = n
                  then (fs w)(filename \<mapsto> File (concat chunks))
                  else (fs w)(filename := None))" by simp
  then have b: "int (length (concat chunks)) = n \<longrightarrow> fs w' filename = Some (File (concat chunks))"
    by simp
  from f have c: "int (length (concat chunks)) \<noteq> n \<longrightarrow> \<not> os_path_exists w' filename"
    by (simp add: os_path_exists_def)
  have d: "int (length (concat chunks)) \<noteq> n \<longrightarrow> last (trace w') = Print_Deleted filename"
    using assms
    by (cases ending; cases verbose)
       (auto simp: download_file_def Let_def except_clause_def fs_after_stream finally_block_file
          split: option.splits node.splits if_splits)
  from a b c d show ?thesis by blast
qed

theorem size_mismatch_is_deleted_witness:
  "\<not> os_path_exists
       (snd (download_file (\<lambda>i u. Response (Parsed 10) [''abc'', ''de''] Complete)
               ''http://h.example/a.pdf'' ''out/a.pdf'' False False 30 (fresh_world [''out'' \<mapsto> Dir])))
       ''out/a.pdf''
   \<and> last (trace (snd (download_file (\<lambda>i u. Response (Parsed 10) [''abc'', ''de''] Complete)
               ''http://h.example/a.pdf'' ''out/a.pdf'' False False 30 (fresh_world [''out'' \<mapsto> Dir]))))
       = Print_Deleted ''out/a.pdf''"
proof -
  let ?net = "\<lambda>(i::nat) (u::string). Response (Parsed 10) [''abc'', ''de''] Complete"
  let ?w = "fresh_world [''out'' \<mapsto> Dir]"
  let ?run = "download_file ?net ''http://h.example/a.pdf'' ''out/a.pdf'' False False 30 ?w"
  have 1: "?net (requests ?w) ''http://h.example/a.pdf'' = Response (Parsed 10) [''abc'', ''de''] Complete"
    by simp
  have 2: "fs ?w ''out/a.pdf'' \<noteq> Some Dir" by (simp add: fresh_world_def)
  have 3: "\<not> (os_path_exists ?w ''out/a.pdf'' \<and> \<not> False)"
    by (simp add: fresh_world_def os_path_exists_def)
  have 4: "?run = (fst ?run, snd ?run)" by simp
  have 5: "int (length (concat [''abc'', ''de''])) \<noteq> 10" by simp
  from size_mismatch_is_deleted [OF 1 2 3 4] 5 show ?thesis by blast
qed

text \<open>
  Claim C9. A response without Content-Length whose non-empty body streams to its end:
  \<open>download_file\<close> returns \<open>success\<close>, and the file is deleted by the cleanup. In the
  loop, the run counts one success for a file that is not on disk.
\<close>

theorem missing_length_deletes_success:
  assumes "net (requests w) url = Response Absent chunks Complete"
    and "concat chunks \<noteq> []"
    and "fs w filename \<noteq> Some Dir"
    and "\<not> (os_path_exists w filename \<and> \<not> overwrite)"
  shows "fst (download_file net url filename verbose overwrite timeout w) = Return ''success''
       \<and> \<not> os_path_exists (snd (download_file net url filename verbose overwrite timeout w)) filename
       \<and> last (trace (snd (download_file net url filename verbose overwrite timeout w)))
           = Print_Deleted filename
       \<and> (filename = os_path_join project_folder (os_path_basename url) \<longrightarrow>
            fst (download_loop net project_folder verbose overwrite timeout [url] initial_results w)
              = Return (initial_results(''success'' \<mapsto> 1))
          \<and> \<not> os_path_exists
                (snd (download_loop net project_folder verbose overwrite timeout [url] initial_results w))
                filename)"
proof -
  let ?run = "download_file net url filename verbose overwrite timeout w"
  have h: "Absent \<noteq> Unparsable" by simp
  have e: "?run = (fst ?run, snd ?run)" by simp
  have nz: "int (length (concat chunks)) \<noteq> 0"
    using assms(2) by (simp del: concat_eq_Nil_conv)
  from download_file_streamed [OF assms(1) h assms(3) assms(4) e]
  have f: "fs (snd ?run) = (fs w)(filename := None)" and r: "fst ?run = Return ''success''"
    using nz by (simp_all del: concat_eq_Nil_conv length_0_conv of_nat_eq_0_iff)
  from f have x: "\<not> os_path_exists (snd ?run) filename" by (simp add: os_path_exists_def)
  have d: "last (trace (snd ?run)) = Print_Deleted filename"
    using assms
    by (cases verbose)
       (auto simp: download_file_def Let_def except_clause_def fs_after_stream finally_block_file
          split: option.splits node.splits if_splits)
  have l: "filename = os_path_join project_folder (os_path_basename url) \<longrightarrow>
            fst (download_loop net project_folder verbose overwrite timeout [url] initial_results w)
              = Return (initial_results(''success'' \<mapsto> 1))
          \<and> \<not> os_path_exists
                (snd (download_loop net project_folder verbose overwrite timeout [url] initial_results w))
                filename"
  proof
    assume n: "filename = os_path_join project_folder (os_path_basename url)"
    have c: "count_up initial_results ''success'' = Return (initial_results(''success'' \<mapsto> 1))"
      by (simp add: count_up_def initial_results_def)
    have "download_loop net project_folder verbose overwrite timeout [url] initial_results w
           = (Return (initial_results(''success'' \<mapsto> 1)), snd ?run)"
    proof -
      have pr: "download_file net url (os_path_join project_folder (os_path_basename url)) verbose
                  overwrite timeout w = (Return ''success'', snd ?run)"
        using r n by (simp add: prod_eq_iff)
      show ?thesis using pr c by (simp add: Let_def)
    qed
    with x show "fst (download_loop net project_folder verbose overwrite timeout [url] initial_results w)
              = Return (initial_results(''success'' \<mapsto> 1))
          \<and> \<not> os_path_exists
                (snd (download_loop net project_folder verbose overwrite timeout [url] initial_results w))
                filename" by simp
  qed
  from r x d l show ?thesis by blast
qed

theorem missing_length_deletes_success_witness:
  "fst (download_file (\<lambda>i u. Response Absent [''ab'', ''c''] Complete) ''http://h.example/a.pdf''
          ''out/a.pdf'' False False 30 (fresh_world [''out'' \<mapsto> Dir])) = Return ''success''
   \<and> \<not> os_path_exists
         (snd (download_file (\<lambda>i u. Response Absent [''ab'', ''c''] Complete) ''http://h.example/a.pdf''
                 ''out/a.pdf'' False False 30 (fresh_world [''out'' \<mapsto> Dir])))
         ''out/a.pdf''
   \<and> fst (download_loop (\<lambda>i u. Response Absent [''ab'', ''c''] Complete) ''out'' False False 30
            [''http://h.example/a.pdf''] initial_results (fresh_world [''out'' \<mapsto> Dir]))
       = Return (initial_results(''success'' \<mapsto> 1))
   \<and> \<not> os_path_exists
         (snd (download_loop (\<lambda>i u. Response Absent [''ab'', ''c''] Complete) ''out'' False False 30
            [''http://h.example/a.pdf''] initial_results (fresh_world [''out'' \<mapsto> Dir])))
         ''out/a.pdf''"
proof -
  let ?net = "\<lambda>(i::nat) (u::string). Response Absent [''ab'', ''c''] Complete"
  let ?w = "fresh_world [''out'' \<mapsto> Dir]"
  have 1: "?net (requests ?w) ''http://h.example/a.pdf'' = Response Absent [''ab'', ''c''] Complete"
    by simp
  have 2: "concat [''ab'', ''c''] \<noteq> []" by simp
  have 3: "fs ?w ''out/a.pdf'' \<noteq> Some Dir" by (simp add: fresh_world_def)
  have 4: "\<not> (os_path_exists ?w ''out/a.pdf'' \<and> \<not> False)"
    by (simp add: fresh_world_def os_path_exists_def)
  have 5: "''out/a.pdf'' = os_path_join ''out'' (os_path_basename ''http://h.example/a.pdf'')"
    by (simp add: os_path_join_def os_path_basename_def endswith_def)
  note t = missing_length_deletes_success [where net = ?net and w = ?w
      and url = "''http://h.example/a.pdf''" and filename = "''out/a.pdf''"
      and chunks = "[''ab'', ''c'']" and overwrite = False and verbose = False and timeout = 30
      and project_folder = "''out''"]
  from t 1 2 3 4 5 show ?thesis by blast
qed

section \<open>The overwrite counter\<close>

text \<open>
  Claim C10. \<open>download_file\<close> returns only \<open>skipped\<close>, \<open>success\<close> or \<open>error\<close>. The
  tally a run of \<open>download_files\<close> prints has the overwrite count zero. A download that
  overwrites an existing file and streams to its end returns \<open>success\<close>, and the loop
  counts it under that key.
\<close>

theorem overwrite_never_counted:
  "(\<forall>r w'. download_file net url filename verbose overwrite timeout w = (Return r, w') \<longrightarrow>
       r = ''skipped'' \<or> r = ''success'' \<or> r = ''error'')
   \<and> (\<forall>u w'. download_files page net urljoin page_url extensions project_folder create_folder verbose
                 overwrite timeout w = (Return u, w') \<longrightarrow>
       (\<exists>s sk er. printed_results w' = Some (s, 0, sk, er)))
   \<and> (fs w filename = Some (File old) \<and> net (requests w) url = Response header chunks Complete
        \<and> header \<noteq> Unparsable \<longrightarrow>
       fst (download_file net url filename verbose True timeout w) = Return ''success''
       \<and> (filename = os_path_join project_folder (os_path_basename url) \<longrightarrow>
            fst (download_loop net project_folder verbose True timeout [url] initial_results w)
              = Return (initial_results(''success'' \<mapsto> 1))))"
proof -
  have a: "\<forall>r w'. download_file net url filename verbose overwrite timeout w = (Return r, w') \<longrightarrow>
       r = ''skipped'' \<or> r = ''success'' \<or> r = ''error''"
    using download_file_returns by blast
  have b: "\<forall>u w'. download_files page net urljoin page_url extensions project_folder create_folder verbose
                 overwrite timeout w = (Return u, w') \<longrightarrow>
       (\<exists>s sk er. printed_results w' = Some (s, 0, sk, er))"
  proof (intro allI impI)
    fix u w'
    assume run: "download_files page net urljoin page_url extensions project_folder create_folder verbose
                 overwrite timeout w = (Return u, w')"
    from download_files_returns [OF run] obtain links files d w2 w3 where
      "page = Page links" and
      l: "download_loop net project_folder verbose overwrite timeout files initial_results w2 = (Return d, w3)"
      and r: "print_results d w3 = (Return u, w')"
      by blast
    from tally_total_initial have i: "tally_total initial_results = Some 0"
      and z: "initial_results ''overwrite'' = Some 0" by simp_all
    from download_loop_total [OF l i] z have o: "d ''overwrite'' = Some 0" by auto
    from print_results_total [OF r] o
    show "\<exists>s sk er. printed_results w' = Some (s, 0, sk, er)" by auto
  qed
  have c: "fs w filename = Some (File old) \<and> net (requests w) url = Response header chunks Complete
        \<and> header \<noteq> Unparsable \<longrightarrow>
       fst (download_file net url filename verbose True timeout w) = Return ''success''
       \<and> (filename = os_path_join project_folder (os_path_basename url) \<longrightarrow>
            fst (download_loop net project_folder verbose True timeout [url] initial_results w)
              = Return (initial_results(''success'' \<mapsto> 1)))"
  proof (intro impI, elim conjE)
    assume f: "fs w filename = Some (File old)"
      and n: "net (requests w) url = Response header chunks Complete"
      and h: "header \<noteq> Unparsable"
    let ?run = "download_file net url filename verbose True timeout w"
    from f have nd: "fs w filename \<noteq> Some Dir" by simp
    have ns: "\<not> (os_path_exists w filename \<and> \<not> True)" by simp
    have e: "?run = (fst ?run, snd ?run)" by simp
    from download_file_streamed [OF n h nd ns e]
    have r: "fst ?run = Return ''success''" by simp
    have "filename = os_path_join project_folder (os_path_basename url) \<longrightarrow>
            fst (download_loop net project_folder verbose True timeout [url] initial_results w)
              = Return (initial_results(''success'' \<mapsto> 1))"
    proof
      assume j: "filename = os_path_join project_folder (os_path_basename url)"
      have pr: "download_file net url (os_path_join project_folder (os_path_basename url)) verbose
                  True timeout w = (Return ''success'', snd ?run)"
        using r j by (simp add: prod_eq_iff)
      have c: "count_up initial_results ''success'' = Return (initial_results(''success'' \<mapsto> 1))"
        by (simp add: count_up_def initial_results_def)
      show "fst (download_loop net project_folder verbose True timeout [url] initial_results w)
              = Return (initial_results(''success'' \<mapsto> 1))"
        using pr c by (simp add: Let_def)
    qed
    with r show "fst ?run = Return ''success''
       \<and> (filename = os_path_join project_folder (os_path_basename url) \<longrightarrow>
            fst (download_loop net project_folder verbose True timeout [url] initial_results w)
              = Return (initial_results(''success'' \<mapsto> 1)))" by simp
  qed
  from a b c show ?thesis by blast
qed

theorem overwrite_never_counted_witness:
  "(\<exists>s sk er. printed_results
     (snd (download_files (Page [Some ''http://h.example/a.pdf'']) (\<lambda>i u. Response (Parsed 3) [''abc''] Complete)
             urljoin_absolute ''http://h.example/'' [''.pdf''] ''out'' False False True 30
             (fresh_world [''out'' \<mapsto> Dir, ''out/a.pdf'' \<mapsto> File ''old''])))
     = Some (s, 0, sk, er) \<and> s = 1)
   \<and> fst (download_file (\<lambda>i u. Response (Parsed 3) [''abc''] Complete) ''http://h.example/a.pdf''
           ''out/a.pdf'' False True 30 (fresh_world [''out'' \<mapsto> Dir, ''out/a.pdf'' \<mapsto> File ''old'']))
       = Return ''success''"
proof -
  let ?net = "\<lambda>(i::nat) (u::string). Response (Parsed 3) [''abc''] Complete"
  let ?w = "fresh_world [''out'' \<mapsto> Dir, ''out/a.pdf'' \<mapsto> File ''old'']"
  let ?page = "Page [Some ''http://h.example/a.pdf'']"
  let ?run = "download_files ?page ?net urljoin_absolute ''http://h.example/'' [''.pdf''] ''out''
                False False True 30 ?w"
  note t = overwrite_never_counted [where net = ?net and w = ?w
      and url = "''http://h.example/a.pdf''" and filename = "''out/a.pdf''" and old = "''old''"
      and header = "Parsed 3" and chunks = "[''abc'']" and verbose = False and timeout = 30
      and page = ?page and page_url = "''http://h.example/''" and urljoin = urljoin_absolute and extensions = "[''.pdf'']"
      and project_folder = "''out''" and create_folder = False and overwrite = True]
  have r: "fst ?run = Return ()" by (simp add: run_defs)
  then have run: "?run = (Return (), snd ?run)" by (simp add: prod_eq_iff)
  have f: "fs ?w ''out/a.pdf'' = Some (File ''old'')" by (simp add: fresh_world_def)
  have n: "?net (requests ?w) ''http://h.example/a.pdf'' = Response (Parsed 3) [''abc''] Complete"
    by simp
  have p: "printed_results (snd ?run) = Some (1, 0, 0, 0)" by (simp add: run_defs)
  from t f n have d: "fst (download_file ?net ''http://h.example/a.pdf'' ''out/a.pdf'' False True 30 ?w)
       = Return ''success''" by simp
  from conjunct1 [OF conjunct2 [OF t], rule_format, OF run]
  obtain s sk er where "printed_results (snd ?run) = Some (s, 0, sk, er)" by blast
  with p d show ?thesis by simp
qed

section \<open>The extension filter\<close>

lemma requested_urls_append [simp]:
  "requested_urls (a @ b) = requested_urls a @ requested_urls b"
  by (simp add: requested_urls_def)

lemma requested_urls_none:
  "adds_only (requests_within []) w w' \<Longrightarrow> requested_urls (new_events w w') = []"
  using requested_urls_within [of "[]" w w'] by simp

lemma new_events_emit:
  "new_events w (emit e w) = [e]"
  by (simp add: new_events_def)

lemma download_file_requested:
  "requested_urls (new_events w (snd (download_file net u filename verbose overwrite timeout w)))
     = (if os_path_exists w filename \<and> \<not> overwrite then [] else [u])"
proof (cases "os_path_exists w filename \<and> \<not> overwrite")
  case True
  then show ?thesis
    by (simp add: download_file_def new_events_def requested_urls_def)
next
  case False
  let ?w0 = "if os_path_exists w filename then emit (Print_Overwriting filename) w else w"
  let ?w1 = "emit (Http_Get u timeout) (?w0\<lparr>requests := Suc (requests ?w0)\<rparr>)"
  let ?end = "snd (download_file net u filename verbose overwrite timeout w)"
  have a1: "adds_only (\<lambda>e. True) w ?w1"
    by (auto intro!: adds_only_emit adds_only_requests adds_only_refl)
  have r1: "requested_urls (new_events w ?w1) = [u]"
    by (simp add: new_events_def requested_urls_def)
  define b where "b = ?w1"
  have unfolded: "?end =
      snd (case net (requests w) u of
             Get_raises e \<Rightarrow> except_clause filename None e b
           | Response Unparsable chunks ending \<Rightarrow> except_clause filename None ValueError b
           | Response header chunks ending \<Rightarrow>
               (let total_size = (case header of Parsed n \<Rightarrow> n | _ \<Rightarrow> 0) in
                case fs b filename of
                  Some Dir \<Rightarrow> except_clause filename (Some total_size) OSError b
                | _ \<Rightarrow>
                    (let w2 = write_chunks filename verbose total_size chunks (open_wb filename b)
                     in case ending of
                          Broken e \<Rightarrow> except_clause filename (Some total_size) e w2
                        | Complete \<Rightarrow>
                            finally_block filename (Some total_size) (Return ''success'')
                              (if \<not> verbose then emit (Print_Downloaded filename) w2 else w2))))"
    unfolding download_file_def if_not_P [OF False] b_def by (simp add: Let_def)
  have "adds_only (requests_within []) b ?end"
    unfolding unfolded
    by (auto simp: Let_def open_wb_def adds_only_refl
        split: get_outcome.splits content_length.splits option.splits node.splits ending.splits
        intro!: adds_only_emit adds_only_fs adds_only_except_clause adds_only_finally_block
          adds_only_write_chunks)
  then have a2: "adds_only (requests_within []) ?w1 ?end" by (simp add: b_def)
  from new_events_trans [OF a1 a2] r1 requested_urls_none [OF a2]
  have "requested_urls (new_events w ?end) = [u]" by simp
  with False show ?thesis by simp
qed

lemma download_loop_requested:
  "subseq (requested_urls (new_events w (snd (download_loop net pf verbose overwrite timeout files d w))))
     files"
proof (induction files arbitrary: d w)
  case Nil
  show ?case by (simp add: new_events_def requested_urls_def)
next
  case (Cons u rest)
  let ?filename = "os_path_join pf (os_path_basename u)"
  let ?step = "download_file net u ?filename verbose overwrite timeout w"
  let ?w1 = "snd ?step"
  have a1: "adds_only (download_event u ?filename timeout) w ?w1"
    by (rule adds_only_download_file)
  have r1: "subseq (requested_urls (new_events w ?w1)) [u]"
    by (simp add: download_file_requested)
  have same: "subseq (requested_urls (new_events w ?w1)) (u # rest)"
    using r1 by (simp add: download_file_requested)
  have later: "\<And>w'. adds_only (requests_within rest) ?w1 w' \<Longrightarrow>
      subseq (requested_urls (new_events ?w1 w')) rest \<Longrightarrow>
      subseq (requested_urls (new_events w w')) (u # rest)"
  proof -
    fix w'
    assume a2: "adds_only (requests_within rest) ?w1 w'"
      and s: "subseq (requested_urls (new_events ?w1 w')) rest"
    from new_events_trans [OF a1 a2]
    have "requested_urls (new_events w w')
            = requested_urls (new_events w ?w1) @ requested_urls (new_events ?w1 w')" by simp
    moreover from r1 s
    have "subseq (requested_urls (new_events w ?w1) @ requested_urls (new_events ?w1 w')) ([u] @ rest)"
      by (rule list_emb_append_mono)
    ultimately show "subseq (requested_urls (new_events w w')) (u # rest)" by simp
  qed
  have loop: "\<And>d1. subseq (requested_urls (new_events w
                (snd (download_loop net pf verbose overwrite timeout rest d1 ?w1)))) (u # rest)"
    by (rule later [OF adds_only_download_loop Cons.IH])
  have handler: "subseq (requested_urls (new_events w (snd (interrupt_handler ?filename d ?w1))))
                   (u # rest)"
  proof (rule later)
    show "adds_only (requests_within rest) ?w1 (snd (interrupt_handler ?filename d ?w1))"
      using adds_only_interrupt_handler by blast
    have "adds_only (requests_within []) ?w1 (snd (interrupt_handler ?filename d ?w1))"
      using adds_only_interrupt_handler by blast
    from requested_urls_none [OF this]
    show "subseq (requested_urls (new_events ?w1 (snd (interrupt_handler ?filename d ?w1)))) rest"
      by simp
  qed
  show ?case
    using same loop handler
    by (auto simp: Let_def split: prod.splits outcome.splits)
qed

lemma any_endswith_Some:
  "any_endswith (Some h) extensions = Return (\<exists>e \<in> set extensions. \<exists>r. h = r @ e)"
  by (induction extensions) (auto simp: endswith_iff_append)

lemma files_to_download_hrefs:
  "files_to_download urljoin url extensions (map Some hrefs)
     = collect (map (urljoin url) (filter (\<lambda>h. \<exists>e \<in> set extensions. \<exists>r. h = r @ e) hrefs))"
  by (induction hrefs) (auto simp: any_endswith_Some resolve_kept_def split: outcome.splits)

text \<open>
  An anchor without \<open>href\<close> is a case of its own: as soon as an extension is requested
  the comprehension raises, and no list of candidates is built.
\<close>

lemma anchor_without_href_raises:
  "extensions \<noteq> [] \<Longrightarrow> None \<in> set links \<Longrightarrow>
   \<exists>e. files_to_download urljoin url extensions links = Raise e"
proof (induction links)
  case Nil
  then show ?case by simp
next
  case (Cons link links)
  from Cons.prems(1) obtain x xs where ext: "extensions = x # xs" by (cases extensions) auto
  show ?case
  proof (cases link)
    case None
    then show ?thesis by (simp add: ext)
  next
    case (Some h)
    with Cons.prems have "None \<in> set links" by simp
    from Cons.IH [OF Cons.prems(1) this] obtain e where
      "files_to_download urljoin url extensions links = Raise e" ..
    then show ?thesis by (auto split: outcome.splits)
  qed
qed

lemma download_files_requested:
  "subseq (requested_urls (new_events w
             (snd (download_files page net urljoin url extensions pf cf verbose overwrite timeout w))))
     (url # (case page of
               Page_raises e \<Rightarrow> []
             | Page links \<Rightarrow>
                 (case files_to_download urljoin url extensions links of
                    Raise e \<Rightarrow> []
                  | Return files \<Rightarrow> files)))"
proof (cases "\<not> os_path_exists w pf \<and> \<not> cf")
  case True
  then show ?thesis by (simp add: download_files_def new_events_def requested_urls_def)
next
  case False
  let ?w0 = "if \<not> os_path_exists w pf then os_makedirs pf w else w"
  let ?w1 = "emit (Http_Get url timeout) (?w0\<lparr>requests := Suc (requests ?w0)\<rparr>)"
  have a1: "adds_only (\<lambda>e. True) w ?w1"
    by (auto simp: os_makedirs_def intro!: adds_only_emit adds_only_requests adds_only_fs adds_only_refl)
  have r1: "requested_urls (new_events w ?w1) = [url]"
    by (simp add: new_events_def requested_urls_def os_makedirs_def)
  show ?thesis
  proof (cases page)
    case (Page_raises e)
    with r1 show ?thesis
      unfolding download_files_def if_not_P [OF False] by (simp add: Let_def)
  next
    case (Page links)
    show ?thesis
    proof (cases "files_to_download urljoin url extensions links")
      case (Raise e)
      with Page r1 show ?thesis
        unfolding download_files_def if_not_P [OF False] by (simp add: Let_def)
    next
      case (Return files)
      let ?w2 = "if verbose then emit (Print_Files (map os_path_basename files)) ?w1 else ?w1"
      have a2: "adds_only (\<lambda>e. True) w ?w2" using a1 by (simp add: adds_only_emit)
      have "adds_only (requests_within []) ?w1 ?w2"
        by (auto intro!: adds_only_emit adds_only_refl)
      from new_events_trans [OF a1 this] r1 requested_urls_none [OF this]
      have r2: "requested_urls (new_events w ?w2) = [url]" by simp
      let ?loop = "download_loop net pf verbose overwrite timeout files initial_results ?w2"
      let ?w3 = "snd ?loop"
      have a3: "adds_only (requests_within files) ?w2 ?w3" by (rule adds_only_download_loop)
      have r3: "subseq (requested_urls (new_events ?w2 ?w3)) files" by (rule download_loop_requested)
      from new_events_trans [OF a2 a3] r2
      have e3: "requested_urls (new_events w ?w3) = url # requested_urls (new_events ?w2 ?w3)"
        by simp
      with r3 have s3: "subseq (requested_urls (new_events w ?w3)) (url # files)" by simp
      have a13: "adds_only (\<lambda>e. True) w ?w3"
        by (rule adds_only_trans [OF a2 adds_only_mono [OF a3]]) simp
      have s4: "\<And>d. subseq (requested_urls (new_events w (snd (print_results d ?w3)))) (url # files)"
      proof -
        fix d
        have p: "adds_only (requests_within []) ?w3 (snd (print_results d ?w3))"
          by (auto simp: print_results_def split: option.splits intro!: adds_only_emit adds_only_refl)
        from new_events_trans [OF a13 p] requested_urls_none [OF p] s3
        show "subseq (requested_urls (new_events w (snd (print_results d ?w3)))) (url # files)"
          by simp
      qed
      have run: "snd (download_files page net urljoin url extensions pf cf verbose overwrite timeout w)
            = (case fst ?loop of Raise e \<Rightarrow> ?w3 | Return d \<Rightarrow> snd (print_results d ?w3))"
        unfolding download_files_def if_not_P [OF False]
        using Page Return by (simp add: Let_def split: outcome.splits prod.splits)
      show ?thesis
        unfolding run using s3 s4 Page Return by (cases "fst ?loop") simp_all
    qed
  qed
qed

text \<open>
  Claim C7, as amended. On a page where every anchor carries an \<open>href\<close>, the candidates
  of \<open>download_files\<close> are exactly the anchors whose \<open>href\<close> text itself, query string
  and fragment included, ends with one of the extensions, each resolved against the page
  URL by \<open>urljoin\<close>, in document order; if \<open>urljoin\<close> raises on one of them, no
  list is built. The requests of the run are the page and then candidates of that list,
  in its order: a subsequence of the page URL followed by the list.
\<close>

theorem selects_by_href_suffix:
  "files_to_download urljoin url extensions (map Some hrefs)
     = collect (map (urljoin url) (filter (\<lambda>h. \<exists>e \<in> set extensions. \<exists>r. h = r @ e) hrefs))
   \<and> subseq
       (requested_urls (new_events w
          (snd (download_files (Page (map Some hrefs)) net urljoin url extensions project_folder
                  create_folder verbose overwrite timeout w))))
       (url # (case collect (map (urljoin url)
                      (filter (\<lambda>h. \<exists>e \<in> set extensions. \<exists>r. h = r @ e) hrefs)) of
                 Raise e \<Rightarrow> []
               | Return files \<Rightarrow> files))"
proof -
  have a: "files_to_download urljoin url extensions (map Some hrefs)
     = collect (map (urljoin url) (filter (\<lambda>h. \<exists>e \<in> set extensions. \<exists>r. h = r @ e) hrefs))"
    by (rule files_to_download_hrefs)
  from download_files_requested [of w "Page (map Some hrefs)" net urljoin url extensions
      project_folder create_folder verbose overwrite timeout]
  have b: "subseq
       (requested_urls (new_events w
          (snd (download_files (Page (map Some hrefs)) net urljoin url extensions project_folder
                  create_folder verbose overwrite timeout w))))
       (url # (case collect (map (urljoin url)
                      (filter (\<lambda>h. \<exists>e \<in> set extensions. \<exists>r. h = r @ e) hrefs)) of
                 Raise e \<Rightarrow> []
               | Return files \<Rightarrow> files))"
    by (simp add: a)
  from a b show ?thesis by (rule conjI)
qed

theorem selects_by_href_suffix_witness:
  "files_to_download urljoin_absolute ''http://h.example/'' [''.pdf'', ''.doc'']
      (map Some [''http://h.example/a.pdf'', ''http://h.example/index.html'', ''http://h.example/b.doc''])
     = Return [''http://h.example/a.pdf'', ''http://h.example/b.doc'']
   \<and> subseq
       (requested_urls (new_events (fresh_world [''out'' \<mapsto> Dir])
          (snd (download_files
                  (Page (map Some [''http://h.example/a.pdf'', ''http://h.example/index.html'',
                                   ''http://h.example/b.doc'']))
                  (\<lambda>i u. Response (Parsed 3) [''abc''] Complete) urljoin_absolute
                  ''http://h.example/'' [''.pdf'', ''.doc''] ''out'' False False False 30
                  (fresh_world [''out'' \<mapsto> Dir])))))
       [''http://h.example/'', ''http://h.example/a.pdf'', ''http://h.example/b.doc'']"
proof -
  have a: "\<exists>e \<in> set [''.pdf'', ''.doc'']. \<exists>r. ''http://h.example/a.pdf'' = r @ e"
    using endswith_iff_append [of "''http://h.example/a.pdf''" "''.pdf''"] by (simp add: endswith_def)
  have b: "\<not> (\<exists>e \<in> set [''.pdf'', ''.doc'']. \<exists>r. ''http://h.example/index.html'' = r @ e)"
    using endswith_iff_append [of "''http://h.example/index.html''" "''.pdf''"]
      endswith_iff_append [of "''http://h.example/index.html''" "''.doc''"]
    by (simp add: endswith_def)
  have c: "\<exists>e \<in> set [''.pdf'', ''.doc'']. \<exists>r. ''http://h.example/b.doc'' = r @ e"
    using endswith_iff_append [of "''http://h.example/b.doc''" "''.doc''"] by (simp add: endswith_def)
  have f: "filter (\<lambda>h. \<exists>e \<in> set [''.pdf'', ''.doc'']. \<exists>r. h = r @ e)
             [''http://h.example/a.pdf'', ''http://h.example/index.html'', ''http://h.example/b.doc'']
           = [''http://h.example/a.pdf'', ''http://h.example/b.doc'']"
    using a b c by simp
  note t = selects_by_href_suffix [where urljoin = urljoin_absolute and url = "''http://h.example/''"
      and extensions = "[''.pdf'', ''.doc'']"
      and hrefs = "[''http://h.example/a.pdf'', ''http://h.example/index.html'', ''http://h.example/b.doc'']"
      and w = "fresh_world [''out'' \<mapsto> Dir]"
      and net = "\<lambda>i u. Response (Parsed 3) [''abc''] Complete" and project_folder = "''out''"
      and create_folder = False and verbose = False and overwrite = False and timeout = 30,
      unfolded f]
  from t show ?thesis by (simp add: urljoin_absolute_def)
qed

text \<open>
  Claim C7 as stated fails in both directions: a link whose path ends with the extension
  but which carries a query string is excluded, and a link whose query string ends with
  the extension is selected.
\<close>

theorem href_suffix_is_not_path_suffix:
  "files_to_download urljoin_absolute ''http://h.example/'' [''.pdf'']
      [Some ''http://h.example/a.pdf?v=1'', Some ''http://h.example/list?f=.pdf'']
     = Return [''http://h.example/list?f=.pdf'']
   \<and> selected_by_path urljoin_absolute ''http://h.example/'' [''.pdf''] ''http://h.example/a.pdf?v=1''
   \<and> \<not> selected_by_path urljoin_absolute ''http://h.example/'' [''.pdf''] ''http://h.example/list?f=.pdf''"
  by (simp add: urljoin_absolute_def endswith_def selected_by_path_def url_path_def resolve_kept_def)

section \<open>convert\_to\_docx: standard error\<close>

text \<open>
  Claim C6, as amended. The process was spawned and wrote to standard error something
  that is not only whitespace, and what it wrote decodes. Then \<open>convert_to_docx\<close>
  returns without an exception, logs the error output and the failure, the failure last,
  and does not log the success message.
\<close>

theorem stderr_text_is_failure:
  assumes "\<not> (os_path_exists w (docx_output_file output_path doc_file) \<and> \<not> overwrite)"
    and "run (libreoffice_command libreoffice_path doc_file output_path) (fs w)
           = Exited stdout stderr returncode files"
    and "strip stderr \<noteq> []"
    and "decode stderr = Some error_text"
    and "stdout = [] \<or> decode stdout = Some output_text"
  shows "\<exists>w' events.
           convert_to_docx run decode libreoffice_path doc_file output_path overwrite w = (Return (), w')
         \<and> trace w' = trace w @ events
         \<and> Log ERROR (Docx_Error error_text) \<in> set events
         \<and> last events = Log ERROR (Docx_Failed doc_file (docx_output_file output_path doc_file))
         \<and> Log INFO (Docx_Converted doc_file (docx_output_file output_path doc_file)) \<notin> set events"
proof -
  from assms(3) have ne: "stderr \<noteq> []" by (auto simp: strip_def)
  show ?thesis
    using assms ne
    by (auto simp: convert_to_docx_def Let_def report_conversion_def log_stdout_def emit_def)
qed

theorem stderr_text_is_failure_witness:
  "\<exists>w'. convert_to_docx (\<lambda>command files. Exited [] ''Error: source file could not be loaded'' 0 files)
           Some ''soffice'' ''in/report.doc'' ''out'' False (fresh_world [''in/report.doc'' \<mapsto> File ''x''])
         = (Return (), w')
      \<and> last (trace w') = Log ERROR (Docx_Failed ''in/report.doc'' ''out/report.docx'')
      \<and> Log INFO (Docx_Converted ''in/report.doc'' ''out/report.docx'') \<notin> set (trace w')"
proof -
  let ?run = "\<lambda>(command::string list) (files::string \<rightharpoonup> node).
                 Exited [] ''Error: source file could not be loaded'' 0 files"
  let ?w = "fresh_world [''in/report.doc'' \<mapsto> File ''x'']"
  have o: "docx_output_file ''out'' ''in/report.doc'' = ''out/report.docx''"
    by (simp add: docx_output_file_def os_path_join_def os_path_basename_def splitext_root_def
        endswith_def Let_def)
  have 1: "\<not> (os_path_exists ?w (docx_output_file ''out'' ''in/report.doc'') \<and> \<not> False)"
    by (simp add: o fresh_world_def os_path_exists_def)
  have 3: "strip ''Error: source file could not be loaded'' \<noteq> []"
    by (simp add: strip_def is_whitespace_def)
  note t = stderr_text_is_failure [where run = ?run and decode = Some and w = ?w
      and output_path = "''out''" and doc_file = "''in/report.doc''" and overwrite = False
      and libreoffice_path = "''soffice''" and stdout = "[]"
      and stderr = "''Error: source file could not be loaded''" and returncode = 0
      and files = "fs ?w" and error_text = "''Error: source file could not be loaded''"]
  from t 1 3 obtain w' events where
    r: "convert_to_docx ?run Some ''soffice'' ''in/report.doc'' ''out'' False ?w = (Return (), w')"
    and tr: "trace w' = trace ?w @ events"
    and l: "last events = Log ERROR (Docx_Failed ''in/report.doc'' ''out/report.docx'')"
    and n: "Log INFO (Docx_Converted ''in/report.doc'' ''out/report.docx'') \<notin> set events"
    and e: "Log ERROR (Docx_Error ''Error: source file could not be loaded'') \<in> set events"
    unfolding o by auto
  from e have "events \<noteq> []" by auto
  with tr l n have "last (trace w') = Log ERROR (Docx_Failed ''in/report.doc'' ''out/report.docx'')
      \<and> Log INFO (Docx_Converted ''in/report.doc'' ''out/report.docx'') \<notin> set (trace w')"
    by (simp add: fresh_world_def)
  with r show ?thesis by blast
qed

text \<open>
  Claim C6 as stated fails: standard error holding a single newline is not empty, yet the
  conversion is reported as converted and no failure is logged.
\<close>

theorem blank_stderr_is_success:
  "convert_to_docx (\<lambda>command files. Exited [] [CHR 0x0A] 0 files)
       Some ''soffice'' ''in/report.doc'' ''out'' False (fresh_world [''in/report.doc'' \<mapsto> File ''x''])
     = (Return (),
        \<lparr>fs = [''in/report.doc'' \<mapsto> File ''x''], dir_size = 4096, requests = 0,
         trace = [Spawn [''soffice'', ''--headless'', ''--convert-to'', ''docx'', ''in/report.doc'',
                         ''--outdir'', ''out''],
                  Log ERROR (Docx_Error [CHR 0x0A]),
                  Log INFO (Docx_Converted ''in/report.doc'' ''out/report.docx'')]\<rparr>)"
  by (simp add: convert_to_docx_def docx_output_file_def os_path_join_def os_path_basename_def
      splitext_root_def endswith_def Let_def fresh_world_def os_path_exists_def libreoffice_command_def
      emit_def report_conversion_def log_stdout_def strip_def is_whitespace_def)

section \<open>Existing targets\<close>

lemma report_conversion_world:
  "\<exists>later. trace (snd (report_conversion decode doc_file output_file stdout stderr x)) = trace x @ later
     \<and> fs (snd (report_conversion decode doc_file output_file stdout stderr x)) = fs x"
  by (auto simp: report_conversion_def log_stdout_def Let_def split: option.splits)

text \<open>
  Claim C1, as amended. With \<open>overwrite\<close> false, each of \<open>convert_to_docx\<close>,
  \<open>convert_to_md\<close> and \<open>download_file\<close> leaves an existing target as it was and
  skips it: it makes no request and spawns no process, and the skip message is all it
  adds to the trace. With \<open>overwrite\<close> true and an existing target the operation goes
  on. A converter spawns the external program with its fixed command line, and the
  target afterwards is what that program left there. \<open>download_file\<close> returns
  \<open>success\<close> with the target holding the downloaded bytes when the stream completes
  with as many bytes as the Content-Length advertised, and ends with the target deleted
  when the bytes written differ in number from the advertised Content-Length.
\<close>

theorem existing_target_skipped_or_attempted:
  "(os_path_exists w (docx_output_file output_path doc_file) \<longrightarrow>
      (\<exists>w'. convert_to_docx soffice decode libreoffice_path doc_file output_path False w = (Return (), w')
          \<and> fs w' (docx_output_file output_path doc_file) = fs w (docx_output_file output_path doc_file)
          \<and> requests w' = requests w
          \<and> trace w' = trace w @ [Log INFO (Docx_Skipping (docx_output_file output_path doc_file))]))
   \<and> (os_path_exists w (md_output_file output_directory docx_file) \<longrightarrow>
      (\<exists>w'. convert_to_md pandoc decode pandoc_path docx_file output_directory False verbose w
              = (Return (), w')
          \<and> fs w' (md_output_file output_directory docx_file)
              = fs w (md_output_file output_directory docx_file)
          \<and> requests w' = requests w
          \<and> trace w' = trace w
               @ [Log INFO (Md_Skipping docx_file (md_output_file output_directory docx_file))]))
   \<and> (os_path_exists w filename \<longrightarrow>
      (\<exists>w'. download_file net url filename verbose False timeout w = (Return ''skipped'', w')
          \<and> fs w' filename = fs w filename \<and> requests w' = requests w
          \<and> trace w' = trace w @ [Print_Skipping filename]))
   \<and> (os_path_exists w (docx_output_file output_path doc_file)
        \<and> soffice (libreoffice_command libreoffice_path doc_file output_path) (fs w)
            = Exited stdout stderr returncode files \<longrightarrow>
        fs (snd (convert_to_docx soffice decode libreoffice_path doc_file output_path True w))
           (docx_output_file output_path doc_file)
          = files (docx_output_file output_path doc_file)
      \<and> (\<exists>later. trace (snd (convert_to_docx soffice decode libreoffice_path doc_file output_path
                                  True w))
            = trace w @ [Log INFO (Docx_Overwriting (docx_output_file output_path doc_file)),
                         Spawn (libreoffice_command libreoffice_path doc_file output_path)] @ later))
   \<and> (os_path_exists w (md_output_file output_directory docx_file)
        \<and> pandoc (pandoc_command pandoc_path docx_file (md_output_file output_directory docx_file))
             (fs w) = Exited stdout stderr returncode files \<longrightarrow>
        fs (snd (convert_to_md pandoc decode pandoc_path docx_file output_directory True verbose w))
           (md_output_file output_directory docx_file)
          = files (md_output_file output_directory docx_file)
      \<and> (\<exists>later. trace (snd (convert_to_md pandoc decode pandoc_path docx_file output_directory
                                  True verbose w))
            = trace w @ [Log DEBUG (Md_Converting docx_file (md_output_file output_directory docx_file)),
                         Spawn (pandoc_command pandoc_path docx_file
                                  (md_output_file output_directory docx_file))] @ later))
   \<and> (fs w filename = Some (File old)
        \<and> net (requests w) url = Response (Parsed n) chunks Complete
        \<and> int (length (concat chunks)) = n \<longrightarrow>
        fst (download_file net url filename verbose True timeout w) = Return ''success''
      \<and> fs (snd (download_file net url filename verbose True timeout w)) filename
          = Some (File (concat chunks)))
   \<and> (fs w filename = Some (File old)
        \<and> net (requests w) url = Response (Parsed n) chunks ending
        \<and> int (length (concat chunks)) \<noteq> n \<longrightarrow>
        fs (snd (download_file net url filename verbose True timeout w)) filename = None)"
proof -
  let ?docx = "docx_output_file output_path doc_file"
  let ?md = "md_output_file output_directory docx_file"
  have a: "os_path_exists w ?docx \<longrightarrow>
      (\<exists>w'. convert_to_docx soffice decode libreoffice_path doc_file output_path False w = (Return (), w')
          \<and> fs w' ?docx = fs w ?docx \<and> requests w' = requests w
          \<and> trace w' = trace w @ [Log INFO (Docx_Skipping ?docx)])"
    by (simp add: convert_to_docx_def Let_def)
  have b: "os_path_exists w ?md \<longrightarrow>
      (\<exists>w'. convert_to_md pandoc decode pandoc_path docx_file output_directory False verbose w
              = (Return (), w')
          \<and> fs w' ?md = fs w ?md \<and> requests w' = requests w
          \<and> trace w' = trace w @ [Log INFO (Md_Skipping docx_file ?md)])"
    by (simp add: convert_to_md_def Let_def)
  have c: "os_path_exists w filename \<longrightarrow>
      (\<exists>w'. download_file net url filename verbose False timeout w = (Return ''skipped'', w')
          \<and> fs w' filename = fs w filename \<and> requests w' = requests w
          \<and> trace w' = trace w @ [Print_Skipping filename])"
    by (simp add: download_file_def)
  have d: "os_path_exists w ?docx
        \<and> soffice (libreoffice_command libreoffice_path doc_file output_path) (fs w)
            = Exited stdout stderr returncode files \<longrightarrow>
        fs (snd (convert_to_docx soffice decode libreoffice_path doc_file output_path True w)) ?docx
          = files ?docx
      \<and> (\<exists>later. trace (snd (convert_to_docx soffice decode libreoffice_path doc_file output_path
                                  True w))
            = trace w @ [Log INFO (Docx_Overwriting ?docx),
                         Spawn (libreoffice_command libreoffice_path doc_file output_path)] @ later)"
  proof (intro impI, elim conjE)
    assume x: "os_path_exists w ?docx"
      and r: "soffice (libreoffice_command libreoffice_path doc_file output_path) (fs w)
            = Exited stdout stderr returncode files"
    let ?w1 = "emit (Spawn (libreoffice_command libreoffice_path doc_file output_path))
                 (emit (Log INFO (Docx_Overwriting ?docx)) w)"
    have run: "convert_to_docx soffice decode libreoffice_path doc_file output_path True w
        = report_conversion decode doc_file ?docx stdout stderr (?w1\<lparr>fs := files\<rparr>)"
      using x r by (simp add: convert_to_docx_def Let_def)
    from report_conversion_world [of decode doc_file ?docx stdout stderr "?w1\<lparr>fs := files\<rparr>"]
    show "fs (snd (convert_to_docx soffice decode libreoffice_path doc_file output_path True w)) ?docx
          = files ?docx
      \<and> (\<exists>later. trace (snd (convert_to_docx soffice decode libreoffice_path doc_file output_path
                                  True w))
            = trace w @ [Log INFO (Docx_Overwriting ?docx),
                         Spawn (libreoffice_command libreoffice_path doc_file output_path)] @ later)"
      unfolding run by auto
  qed
  have e: "os_path_exists w ?md
        \<and> pandoc (pandoc_command pandoc_path docx_file ?md) (fs w)
            = Exited stdout stderr returncode files \<longrightarrow>
        fs (snd (convert_to_md pandoc decode pandoc_path docx_file output_directory True verbose w)) ?md
          = files ?md
      \<and> (\<exists>later. trace (snd (convert_to_md pandoc decode pandoc_path docx_file output_directory
                                  True verbose w))
            = trace w @ [Log DEBUG (Md_Converting docx_file ?md),
                         Spawn (pandoc_command pandoc_path docx_file ?md)] @ later)"
    by (auto simp: convert_to_md_def Let_def split: option.splits)
  have f: "fs w filename = Some (File old)
        \<and> net (requests w) url = Response (Parsed n) chunks Complete
        \<and> int (length (concat chunks)) = n \<longrightarrow>
        fst (download_file net url filename verbose True timeout w) = Return ''success''
      \<and> fs (snd (download_file net url filename verbose True timeout w)) filename
          = Some (File (concat chunks))"
  proof (intro impI, elim conjE)
    assume x: "fs w filename = Some (File old)"
      and y: "net (requests w) url = Response (Parsed n) chunks Complete"
      and z: "int (length (concat chunks)) = n"
    let ?run = "download_file net url filename verbose True timeout w"
    have h: "Parsed n \<noteq> Unparsable" by simp
    from x have nd: "fs w filename \<noteq> Some Dir" by simp
    have ns: "\<not> (os_path_exists w filename \<and> \<not> True)" by simp
    have p: "?run = (fst ?run, snd ?run)" by simp
    from download_file_streamed [OF y h nd ns p] z
    show "fst ?run = Return ''success'' \<and> fs (snd ?run) filename = Some (File (concat chunks))"
      by simp
  qed
  have g: "fs w filename = Some (File old)
        \<and> net (requests w) url = Response (Parsed n) chunks ending
        \<and> int (length (concat chunks)) \<noteq> n \<longrightarrow>
        fs (snd (download_file net url filename verbose True timeout w)) filename = None"
  proof (intro impI, elim conjE)
    assume x: "fs w filename = Some (File old)"
      and y: "net (requests w) url = Response (Parsed n) chunks ending"
      and z: "int (length (concat chunks)) \<noteq> n"
    let ?run = "download_file net url filename verbose True timeout w"
    have h: "Parsed n \<noteq> Unparsable" by simp
    from x have nd: "fs w filename \<noteq> Some Dir" by simp
    have ns: "\<not> (os_path_exists w filename \<and> \<not> True)" by simp
    have p: "?run = (fst ?run, snd ?run)" by simp
    from download_file_streamed [OF y h nd ns p] z
    show "fs (snd ?run) filename = None" by simp
  qed
  from a b c d e f g show ?thesis by blast
qed

theorem existing_target_skipped_or_attempted_witness:
  "fs (snd (download_file (\<lambda>i u. Response (Parsed 3) [''new''] Complete) ''http://h.example/a.pdf''
              ''out/a.pdf'' False False 30
              (fresh_world [''out'' \<mapsto> Dir, ''out/a.pdf'' \<mapsto> File ''old'',
                            ''out/report.docx'' \<mapsto> File ''old''])))
      ''out/a.pdf'' = Some (File ''old'')
   \<and> fs (snd (download_file (\<lambda>i u. Response (Parsed 3) [''new''] Complete) ''http://h.example/a.pdf''
              ''out/a.pdf'' False True 30
              (fresh_world [''out'' \<mapsto> Dir, ''out/a.pdf'' \<mapsto> File ''old'',
                            ''out/report.docx'' \<mapsto> File ''old''])))
       ''out/a.pdf'' = Some (File ''new'')
   \<and> fs (snd (download_file (\<lambda>i u. Response (Parsed 10) [''new''] Complete) ''http://h.example/a.pdf''
              ''out/a.pdf'' False True 30
              (fresh_world [''out'' \<mapsto> Dir, ''out/a.pdf'' \<mapsto> File ''old'',
                            ''out/report.docx'' \<mapsto> File ''old''])))
       ''out/a.pdf'' = None
   \<and> fs (snd (convert_to_docx
                (\<lambda>command files. Exited ''convert'' [] 0 (files(''out/report.docx'' \<mapsto> File ''new'')))
                Some ''soffice'' ''in/report.doc'' ''out'' False
                (fresh_world [''out'' \<mapsto> Dir, ''out/a.pdf'' \<mapsto> File ''old'',
                              ''out/report.docx'' \<mapsto> File ''old''])))
       ''out/report.docx'' = Some (File ''old'')
   \<and> fs (snd (convert_to_docx
                (\<lambda>command files. Exited ''convert'' [] 0 (files(''out/report.docx'' \<mapsto> File ''new'')))
                Some ''soffice'' ''in/report.doc'' ''out'' True
                (fresh_world [''out'' \<mapsto> Dir, ''out/a.pdf'' \<mapsto> File ''old'',
                              ''out/report.docx'' \<mapsto> File ''old''])))
       ''out/report.docx'' = Some (File ''new'')"
proof -
  let ?net = "\<lambda>(i::nat) (u::string). Response (Parsed 3) [''new''] Complete"
  let ?short = "\<lambda>(i::nat) (u::string). Response (Parsed 10) [''new''] Complete"
  let ?soffice = "\<lambda>(command::string list) (files::string \<rightharpoonup> node).
                    Exited ''convert'' [] 0 (files(''out/report.docx'' \<mapsto> File ''new''))"
  let ?w = "fresh_world [''out'' \<mapsto> Dir, ''out/a.pdf'' \<mapsto> File ''old'',
                         ''out/report.docx'' \<mapsto> File ''old'']"
  have o: "docx_output_file ''out'' ''in/report.doc'' = ''out/report.docx''"
    by (simp add: docx_output_file_def os_path_join_def os_path_basename_def splitext_root_def
        endswith_def Let_def)
  have x1: "os_path_exists ?w ''out/a.pdf''" by (simp add: fresh_world_def os_path_exists_def)
  have x2: "os_path_exists ?w (docx_output_file ''out'' ''in/report.doc'')"
    by (simp add: o fresh_world_def os_path_exists_def)
  have x3: "fs ?w ''out/a.pdf'' = Some (File ''old'')" by (simp add: fresh_world_def)
  have x4: "int (length (concat [''new''])) = 3" by simp
  have x5: "int (length (concat [''new''])) \<noteq> 10" by simp
  have x6: "fs ?w ''out/report.docx'' = Some (File ''old'')" by (simp add: fresh_world_def)
  note t = existing_target_skipped_or_attempted [where w = ?w and net = ?net and soffice = ?soffice
      and decode = Some and url = "''http://h.example/a.pdf''" and filename = "''out/a.pdf''"
      and verbose = False and timeout = 30 and old = "''old''" and n = 3 and chunks = "[''new'']"
      and libreoffice_path = "''soffice''" and doc_file = "''in/report.doc''"
      and output_path = "''out''" and stdout = "''convert''" and stderr = "[]" and returncode = 0
      and files = "(fs ?w)(''out/report.docx'' \<mapsto> File ''new'')"]
  note t2 = existing_target_skipped_or_attempted [where w = ?w and net = ?short
      and url = "''http://h.example/a.pdf''" and filename = "''out/a.pdf''"
      and verbose = False and timeout = 30 and old = "''old''" and n = 10 and chunks = "[''new'']"
      and ending = Complete]
  from t [THEN conjunct2, THEN conjunct2, THEN conjunct1, rule_format, OF x1]
  obtain w1 where "download_file ?net ''http://h.example/a.pdf'' ''out/a.pdf'' False False 30 ?w
                    = (Return ''skipped'', w1)" and "fs w1 ''out/a.pdf'' = fs ?w ''out/a.pdf''" by blast
  with x3 have a: "fs (snd (download_file ?net ''http://h.example/a.pdf'' ''out/a.pdf'' False False 30 ?w))
      ''out/a.pdf'' = Some (File ''old'')" by simp
  from t [THEN conjunct2, THEN conjunct2, THEN conjunct2, THEN conjunct2, THEN conjunct2,
          THEN conjunct1, rule_format, OF conjI [OF x3 conjI [OF refl x4]]]
  have "fs (snd (download_file ?net ''http://h.example/a.pdf'' ''out/a.pdf'' False True 30 ?w))
       ''out/a.pdf'' = Some (File (concat [''new'']))" by (rule conjunct2)
  then have b: "fs (snd (download_file ?net ''http://h.example/a.pdf'' ''out/a.pdf'' False True 30 ?w))
       ''out/a.pdf'' = Some (File ''new'')" by simp
  from t2 [THEN conjunct2, THEN conjunct2, THEN conjunct2, THEN conjunct2, THEN conjunct2,
          THEN conjunct2, rule_format, OF conjI [OF x3 conjI [OF refl x5]]]
  have g: "fs (snd (download_file ?short ''http://h.example/a.pdf'' ''out/a.pdf'' False True 30 ?w))
       ''out/a.pdf'' = None" .
  from t [THEN conjunct1, rule_format, OF x2]
  obtain w2 where "convert_to_docx ?soffice Some ''soffice'' ''in/report.doc'' ''out'' False ?w
                    = (Return (), w2)"
    and "fs w2 (docx_output_file ''out'' ''in/report.doc'') = fs ?w (docx_output_file ''out'' ''in/report.doc'')"
    by blast
  with x6 have c: "fs (snd (convert_to_docx ?soffice Some ''soffice'' ''in/report.doc'' ''out'' False ?w))
      ''out/report.docx'' = Some (File ''old'')" by (simp add: o)
  from t [THEN conjunct2, THEN conjunct2, THEN conjunct2, THEN conjunct1, rule_format,
          OF conjI [OF x2 refl]]
  have "fs (snd (convert_to_docx ?soffice Some ''soffice'' ''in/report.doc'' ''out'' True ?w))
         (docx_output_file ''out'' ''in/report.doc'')
       = ((fs ?w)(''out/report.docx'' \<mapsto> File ''new'')) (docx_output_file ''out'' ''in/report.doc'')"
    by (rule conjunct1)
  then have d: "fs (snd (convert_to_docx ?soffice Some ''soffice'' ''in/report.doc'' ''out'' True ?w))
       ''out/report.docx'' = Some (File ''new'')" by (simp add: o)
  from a b g c d show ?thesis by simp
qed

text \<open>
  Claim C1 as stated fails for \<open>overwrite\<close> true: the response advertises ten bytes and
  the stream completes after three, so the size check deletes the target. The old file is
  gone and no new one stands in its place.
\<close>

theorem overwrite_does_not_always_replace:
  "fst (download_file (\<lambda>i u. Response (Parsed 10) [''new''] Complete) ''http://h.example/a.pdf''
          ''out/a.pdf'' False True 30
          (fresh_world [''out'' \<mapsto> Dir, ''out/a.pdf'' \<mapsto> File ''old''])) = Return ''success''
   \<and> fs (snd (download_file (\<lambda>i u. Response (Parsed 10) [''new''] Complete) ''http://h.example/a.pdf''
                ''out/a.pdf'' False True 30
                (fresh_world [''out'' \<mapsto> Dir, ''out/a.pdf'' \<mapsto> File ''old''])))
       ''out/a.pdf'' = None
   \<and> trace (snd (download_file (\<lambda>i u. Response (Parsed 10) [''new''] Complete)
                   ''http://h.example/a.pdf'' ''out/a.pdf'' False True 30
                   (fresh_world [''out'' \<mapsto> Dir, ''out/a.pdf'' \<mapsto> File ''old''])))
       = [Print_Overwriting ''out/a.pdf'', Http_Get ''http://h.example/a.pdf'' 30,
          Print_Downloaded ''out/a.pdf'', Print_Deleted ''out/a.pdf'']"
  by (simp add: Let_def fresh_world_def os_path_exists_def
      emit_def download_file_def finally_block_def open_wb_def f_write_def written_def
      os_path_getsize_def os_remove_file_def)

section \<open>Failing inputs\<close>

text \<open>
  Claim C5 at a failing input. The target exists, \<open>overwrite\<close> is set and the request
  raises a \<^verbatim>\<open>RequestException\<close>: the \<^verbatim>\<open>finally\<close> block reads the unbound
  \<^verbatim>\<open>total_size\<close>, so \<open>download_file\<close> raises \<^verbatim>\<open>UnboundLocalError\<close> in place of
  returning \<open>error\<close>, and \<open>download_files\<close> ends with that exception: no tally, and the
  second candidate is never requested.
\<close>

theorem failed_request_on_existing_file_escapes:
  "download_file (\<lambda>i u. Get_raises RequestException) ''http://h.example/a.pdf'' ''out/a.pdf''
       False True 30 (fresh_world [''out'' \<mapsto> Dir, ''out/a.pdf'' \<mapsto> File ''old''])
     = (Raise UnboundLocalError,
        \<lparr>fs = [''out'' \<mapsto> Dir, ''out/a.pdf'' \<mapsto> File ''old''], dir_size = 4096, requests = 1,
         trace = [Print_Overwriting ''out/a.pdf'', Http_Get ''http://h.example/a.pdf'' 30,
                  Print_Error ''out/a.pdf'']\<rparr>)
   \<and> download_files (Page [Some ''http://h.example/a.pdf'', Some ''http://h.example/b.pdf''])
       (\<lambda>i u. if u = ''http://h.example/a.pdf'' then Get_raises RequestException
               else Response (Parsed 3) [''abc''] Complete)
       urljoin_absolute ''http://h.example/'' [''.pdf''] ''out'' False False True 30
       (fresh_world [''out'' \<mapsto> Dir, ''out/a.pdf'' \<mapsto> File ''old''])
     = (Raise UnboundLocalError,
        \<lparr>fs = [''out'' \<mapsto> Dir, ''out/a.pdf'' \<mapsto> File ''old''], dir_size = 4096, requests = 2,
         trace = [Http_Get ''http://h.example/'' 30, Print_Overwriting ''out/a.pdf'',
                  Http_Get ''http://h.example/a.pdf'' 30, Print_Error ''out/a.pdf'']\<rparr>)"
  by (simp add: run_defs)

text \<open>
  Claim C3 at a failing input. The response has no Content-Length and the stream breaks
  before its first chunk: the file just created is empty, its size equals the default
  expected size 0, and it stays on disk.
\<close>

theorem broken_stream_leaves_empty_file:
  "download_file (\<lambda>i u. Response Absent [] (Broken RequestException)) ''http://h.example/a.pdf''
       ''out/a.pdf'' False False 30 (fresh_world [''out'' \<mapsto> Dir])
     = (Return ''error'',
        \<lparr>fs = [''out'' \<mapsto> Dir, ''out/a.pdf'' \<mapsto> File []], dir_size = 4096, requests = 1,
         trace = [Http_Get ''http://h.example/a.pdf'' 30, Print_Error ''out/a.pdf'']\<rparr>)"
  by (simp add: run_defs)

end
